theory Spec2Isabelle
  imports Main "HOL-Library.Word"
begin

unbundle bit_operations_syntax

section \<open>Machine types\<close>

text \<open>
  The code under \<^verbatim>\<open>hypervisor/arch/arm\<close> is the 32-bit ARMv7 port:
  \<^verbatim>\<open>unsigned long\<close>, \<^verbatim>\<open>unsigned int\<close> and \<^verbatim>\<open>u32\<close> are 32-bit words whose arithmetic
  wraps around, \<^verbatim>\<open>unsigned short\<close> and \<^verbatim>\<open>u16\<close> are 16-bit words.
\<close>

type_synonym u32 = "32 word"
type_synonym u16 = "16 word"

section \<open>Trap context and syndrome decoding (traps.c)\<close>

text \<open>
  \<^verbatim>\<open>struct trap_context\<close>: the saved user registers (\<^verbatim>\<open>unsigned long *regs\<close>, the
  array \<^verbatim>\<open>usr[14]\<close> holding r0-r12 and lr), the guest PSR, the syndrome word and the
  guest PC.
\<close>

record trap_context =
  regs :: "u32 list"
  cpsr :: u32
  hsr :: u32
  pc :: u32

text \<open>
  Modelled from the spec: the syndrome and PSR field macros of the headers
  \<^verbatim>\<open>asm/traps.h\<close> and \<^verbatim>\<open>asm/processor.h\<close>, which are not among the source files. The
  exception class is syndrome[31:26], IL is syndrome bit 25, the condition-valid bit is
  syndrome bit 24 and the condition is syndrome[23:20]; IT[7:0] is kept in the PSR as
  IT[1:0] = PSR[26:25] and IT[7:2] = PSR[15:10].
\<close>

definition HSR_EC :: "u32 \<Rightarrow> u32" where
  "HSR_EC h = drop_bit 26 h"

definition HSR_IL :: "u32 \<Rightarrow> u32" where
  "HSR_IL h = drop_bit 25 h AND 1"

definition HSR_ICC :: "u32 \<Rightarrow> u32" where
  "HSR_ICC h = h AND 0x1ffffff"

definition HSR_ICC_CV_BIT :: u32 where
  "HSR_ICC_CV_BIT = 0x1000000"

definition HSR_ICC_COND :: "u32 \<Rightarrow> u32" where
  "HSR_ICC_COND icc = drop_bit 20 icc AND 0xf"

definition PSR_IT_MASK :: "u32 \<Rightarrow> u32" where
  "PSR_IT_MASK it = push_bit 25 (it AND 0x3) OR push_bit 8 (it AND 0xfc)"

definition PSR_IT :: "u32 \<Rightarrow> u32" where
  "PSR_IT psr = (drop_bit 25 psr AND 0x3) OR (drop_bit 8 psr AND 0xfc)"

subsection \<open>Condition check\<close>

text \<open>The table \<^verbatim>\<open>cc_map[16]\<close>, indexed by the condition code; bit position is NZCV.\<close>

definition cc_map :: "u16 list" where
  "cc_map =
    [0xF0F0, 0x0F0F, 0xCCCC, 0x3333, 0xFF00, 0x00FF, 0xAAAA, 0x5555,
     0x0C0C, 0xF3F3, 0xAA55, 0x55AA, 0x0A05, 0xF5FA, 0xFFFF, 0]"

text \<open>
  \<^verbatim>\<open>arch_failed_condition\<close>. The table entry is promoted to a 32-bit integer before the
  shift, as C does.
\<close>

definition arch_failed_condition :: "trap_context \<Rightarrow> bool" where
  "arch_failed_condition ctx =
    (let class = HSR_EC (hsr ctx);
         icc = HSR_ICC (hsr ctx);
         psr = cpsr ctx;
         flags = drop_bit 28 psr
     in
       if class AND 0x30 \<noteq> 0 \<or> class = 0 then False
       else
         (case (if icc AND HSR_ICC_CV_BIT \<noteq> 0 then Some (HSR_ICC_COND icc)
                else (let it = PSR_IT psr in if it = 0 then None else Some (drop_bit 4 it)))
          of
            None \<Rightarrow> False
          | Some cond \<Rightarrow>
              if drop_bit (unat flags) (ucast (cc_map ! unat cond) :: u32) AND 1 \<noteq> 0
              then False else True))"

subsection \<open>Instruction skip\<close>

text \<open>\<^verbatim>\<open>arch_advance_itstate\<close>: returns at once when no IT bit of the PSR is set.\<close>

definition arch_advance_itstate :: "trap_context \<Rightarrow> trap_context" where
  "arch_advance_itstate ctx =
    (let psr = cpsr ctx in
       if psr AND PSR_IT_MASK 0xff = 0 then ctx
       else
         (let itbits0 = PSR_IT psr;
              cond0 = drop_bit 5 itbits0;
              (itbits1, cond1) =
                 (if itbits0 AND 0x7 = 0 then (0, 0)
                  else (push_bit 1 itbits0 AND 0x1f, cond0));
              itbits2 = itbits1 OR push_bit 5 cond1;
              psr1 = psr AND NOT (PSR_IT_MASK 0xff);
              psr2 = psr1 OR PSR_IT_MASK itbits2
          in ctx\<lparr>cpsr := psr2\<rparr>))"

definition arch_skip_instruction :: "trap_context \<Rightarrow> trap_context" where
  "arch_skip_instruction ctx =
    (let instruction_length = HSR_IL (hsr ctx)
     in arch_advance_itstate (ctx\<lparr>pc := pc ctx + (if instruction_length \<noteq> 0 then 4 else 2)\<rparr>))"

subsection \<open>The architecture's rules, as the specification words them\<close>

text \<open>
  The truth value of condition code \<open>cond\<close> under the flags N, Z, C and V: EQ, NE, CS, CC,
  MI, PL, VS, VC, HI, LS, GE, LT, GT, LE, AL, NV in this order.
\<close>

definition arm_condition :: "nat \<Rightarrow> bool \<Rightarrow> bool \<Rightarrow> bool \<Rightarrow> bool \<Rightarrow> bool" where
  "arm_condition cond n z c v =
    (if cond = 0 then z
     else if cond = 1 then \<not> z
     else if cond = 2 then c
     else if cond = 3 then \<not> c
     else if cond = 4 then n
     else if cond = 5 then \<not> n
     else if cond = 6 then v
     else if cond = 7 then \<not> v
     else if cond = 8 then c \<and> \<not> z
     else if cond = 9 then \<not> c \<or> z
     else if cond = 10 then n = v
     else if cond = 11 then n \<noteq> v
     else if cond = 12 then \<not> z \<and> n = v
     else if cond = 13 then z \<or> n \<noteq> v
     else if cond = 14 then True
     else False)"

text \<open>
  The condition that applies to a trapped instruction: none when the exception class has
  one of its bits 5:4 set or is zero; the syndrome's condition field when the syndrome
  says it is valid; otherwise the top four bits of a non-zero IT state.
\<close>

definition applicable_condition :: "trap_context \<Rightarrow> nat option" where
  "applicable_condition ctx =
    (let class = take_bit 6 (drop_bit 26 (hsr ctx)) in
       if bit class 5 \<or> bit class 4 \<or> class = 0 then None
       else if bit (hsr ctx) 24 then Some (unat (take_bit 4 (drop_bit 20 (hsr ctx))))
       else if PSR_IT (cpsr ctx) = 0 then None
       else Some (unat (take_bit 4 (drop_bit 4 (PSR_IT (cpsr ctx))))))"

text \<open>
  One step of the IT-state on the 8-bit IT value: nothing when no IT block is active;
  the whole field is cleared when the block is exhausted (this was its last instruction:
  the low three bits are zero); otherwise the low five bits are shifted left by one and
  masked to five bits, under the unchanged top three bits.
\<close>

definition it_advance :: "u32 \<Rightarrow> u32" where
  "it_advance it =
    (if it = 0 then 0
     else if take_bit 3 it = 0 then 0
     else push_bit 5 (take_bit 3 (drop_bit 5 it)) OR take_bit 5 (push_bit 1 (take_bit 5 it)))"

section \<open>Guest registers and CP15 emulation (traps.c)\<close>

subsection \<open>The registers of the executing CPU\<close>

text \<open>
  The banked registers the code reads and writes by name (\<^verbatim>\<open>SP_usr\<close>, \<^verbatim>\<open>LR_svc\<close>,
  \<^verbatim>\<open>R8_fiq\<close>, \<^verbatim>\<open>SPSR_hyp\<close>, ...) and the system registers, designated either by name
  (\<^verbatim>\<open>arm_write_sysreg(SCTLR_EL1, val)\<close>) or by encoding
  (\<^verbatim>\<open>arm_write_sysreg_32(opc1, c<crn>, c<crm>, opc2, val)\<close>).
\<close>

datatype bank = Usr | Svc | Und | Abt | Irq | Fiq

datatype banked_reg =
    SP bank | LR bank | SPSR bank | R_fiq nat | ELR_hyp | SPSR_hyp

datatype sysreg =
    SCTLR_EL1 | ACTLR_EL1 | CPACR_EL1 | CONTEXTIDR_EL1 | PAR_EL1 | TTBR0_EL1 | TTBR1_EL1
  | CSSELR_EL1 | CNTKCTL_EL1 | CNTP_CTL_EL0 | CNTP_CVAL_EL0 | CNTV_CTL_EL0 | CNTV_CVAL_EL0
  | TTBCR | DACR | VBAR | DFSR | DFAR | IFSR | IFAR | ADFSR | AIFSR | MAIR0 | MAIR1
  | AMAIR0 | AMAIR1 | TPIDRURW | TPIDRURO | TPIDRPRW | VMPIDR_EL2
  | CP15_32 nat nat nat nat

datatype printk_msg = WARN_pc_access | ERR_bad_register nat

text \<open>
  System registers are up to 64 bits wide; a 32-bit write is zero-extended. Every write
  to a system register is also appended to \<open>sysreg_writes\<close>, so that "no system register
  is written" can be told from "the old value is written again".
\<close>

record machine =
  banked :: "banked_reg \<Rightarrow> u32"
  sysregs :: "sysreg \<Rightarrow> 64 word"
  sysreg_writes :: "(sysreg \<times> 64 word) list"
  console :: "printk_msg list"

definition arm_read_banked_reg :: "banked_reg \<Rightarrow> machine \<Rightarrow> u32" where
  "arm_read_banked_reg r m = banked m r"

definition arm_write_banked_reg :: "banked_reg \<Rightarrow> u32 \<Rightarrow> machine \<Rightarrow> machine" where
  "arm_write_banked_reg r v m = m\<lparr>banked := (banked m)(r := v)\<rparr>"

definition arm_read_sysreg :: "sysreg \<Rightarrow> machine \<Rightarrow> 64 word" where
  "arm_read_sysreg r m = sysregs m r"

definition arm_write_sysreg :: "sysreg \<Rightarrow> 64 word \<Rightarrow> machine \<Rightarrow> machine" where
  "arm_write_sysreg r v m =
     m\<lparr>sysregs := (sysregs m)(r := v), sysreg_writes := sysreg_writes m @ [(r, v)]\<rparr>"

definition arm_write_sysreg_32 ::
    "nat \<Rightarrow> nat \<Rightarrow> nat \<Rightarrow> nat \<Rightarrow> u32 \<Rightarrow> machine \<Rightarrow> machine" where
  "arm_write_sysreg_32 opc1 crn crm opc2 v m =
     arm_write_sysreg (CP15_32 opc1 crn crm opc2) (ucast v) m"

definition printk :: "printk_msg \<Rightarrow> machine \<Rightarrow> machine" where
  "printk msg m = m\<lparr>console := console m @ [msg]\<rparr>"

subsection \<open>Guest register access\<close>

text \<open>
  Modelled from the spec: the processor modes of \<^verbatim>\<open>asm/processor.h\<close> (the architecture's
  encodings of PSR[3:0]) and the access macros of \<^verbatim>\<open>asm/traps.h\<close>, which are not among
  the source files. \<^verbatim>\<open>access_usr_reg\<close> reads or writes the on-stack user copy
  \<^verbatim>\<open>ctx->regs[reg]\<close>; \<^verbatim>\<open>access_fiq_reg\<close> the FIQ bank of r8-r12;
  \<^verbatim>\<open>access_banked_reg(mode, reg, ...)\<close> the SP (\<open>reg = 13\<close>) or LR (\<open>reg = 14\<close>) of the
  bank \<open>mode\<close>.
\<close>

definition PSR_MODE_MASK :: u32 where "PSR_MODE_MASK = 0xf"
definition PSR_USR_MODE :: u32 where "PSR_USR_MODE = 0x0"
definition PSR_FIQ_MODE :: u32 where "PSR_FIQ_MODE = 0x1"
definition PSR_IRQ_MODE :: u32 where "PSR_IRQ_MODE = 0x2"
definition PSR_SVC_MODE :: u32 where "PSR_SVC_MODE = 0x3"
definition PSR_ABT_MODE :: u32 where "PSR_ABT_MODE = 0x7"
definition PSR_UND_MODE :: u32 where "PSR_UND_MODE = 0xb"
definition PSR_SYS_MODE :: u32 where "PSR_SYS_MODE = 0xf"

definition access_usr_reg ::
    "trap_context \<Rightarrow> machine \<Rightarrow> nat \<Rightarrow> u32 \<Rightarrow> bool \<Rightarrow> trap_context \<times> machine \<times> u32" where
  "access_usr_reg ctx m reg val is_read =
     (if is_read then (ctx, m, regs ctx ! reg)
      else (ctx\<lparr>regs := (regs ctx)[reg := val]\<rparr>, m, val))"

definition access_fiq_reg ::
    "trap_context \<Rightarrow> machine \<Rightarrow> nat \<Rightarrow> u32 \<Rightarrow> bool \<Rightarrow> trap_context \<times> machine \<times> u32" where
  "access_fiq_reg ctx m reg val is_read =
     (if is_read then (ctx, m, arm_read_banked_reg (R_fiq reg) m)
      else (ctx, arm_write_banked_reg (R_fiq reg) val m, val))"

definition access_banked_reg ::
    "bank \<Rightarrow> trap_context \<Rightarrow> machine \<Rightarrow> nat \<Rightarrow> u32 \<Rightarrow> bool \<Rightarrow> trap_context \<times> machine \<times> u32" where
  "access_banked_reg mode ctx m reg val is_read =
     (let r = (if reg = 13 then SP mode else LR mode) in
        if is_read then (ctx, m, arm_read_banked_reg r m)
        else (ctx, arm_write_banked_reg r val m, val))"

text \<open>
  \<^verbatim>\<open>access_cell_reg(ctx, reg, val, is_read)\<close>: \<open>val\<close> is passed in and handed back, since
  the C function leaves \<^verbatim>\<open>*val\<close> as it was when it reads nothing.
\<close>

definition access_cell_reg ::
    "trap_context \<Rightarrow> machine \<Rightarrow> nat \<Rightarrow> u32 \<Rightarrow> bool \<Rightarrow> trap_context \<times> machine \<times> u32" where
  "access_cell_reg ctx m reg val is_read =
     (let mode = cpsr ctx AND PSR_MODE_MASK in
        if reg \<le> 7 then access_usr_reg ctx m reg val is_read
        else if reg \<le> 12 then
          (if mode = PSR_FIQ_MODE then access_fiq_reg ctx m reg val is_read
           else access_usr_reg ctx m reg val is_read)
        else if reg \<le> 14 then
          (if mode = PSR_USR_MODE \<or> mode = PSR_SYS_MODE then
             (if reg = 13 then access_banked_reg Usr ctx m reg val is_read
              else access_usr_reg ctx m 13 val is_read)
           else if mode = PSR_SVC_MODE then access_banked_reg Svc ctx m reg val is_read
           else if mode = PSR_UND_MODE then access_banked_reg Und ctx m reg val is_read
           else if mode = PSR_ABT_MODE then access_banked_reg Abt ctx m reg val is_read
           else if mode = PSR_IRQ_MODE then access_banked_reg Irq ctx m reg val is_read
           else if mode = PSR_FIQ_MODE then access_banked_reg Fiq ctx m reg val is_read
           else (ctx, m, val))
        else if reg = 15 then
          (let m1 = printk WARN_pc_access m in
             if is_read then (ctx, m1, pc ctx) else (ctx\<lparr>pc := val\<rparr>, m1, val))
        else (ctx, printk (ERR_bad_register reg) m, val))"

subsection \<open>CP15 32-bit accesses\<close>

datatype trap_return = TRAP_HANDLED | TRAP_UNHANDLED | TRAP_FORBIDDEN

text \<open>
  Modelled from the spec: the macro \<^verbatim>\<open>HSR_MATCH_MCR_MRC(hsr, crn, opc1, crm, opc2)\<close> of
  \<^verbatim>\<open>asm/traps.h\<close>, which is not among the source files. It compares the syndrome's
  fields Opc2 = hsr[19:17], Opc1 = hsr[16:14], CRn = hsr[13:10] and CRm = hsr[4:1] with
  its arguments; Rt = hsr[8:5] and the direction bit hsr[0] are decoded by the handler.
\<close>

definition HSR_MATCH_MCR_MRC :: "u32 \<Rightarrow> nat \<Rightarrow> nat \<Rightarrow> nat \<Rightarrow> nat \<Rightarrow> bool" where
  "HSR_MATCH_MCR_MRC h crn opc1 crm opc2 \<longleftrightarrow>
     h AND 0xffc1e =
       push_bit 17 (of_nat opc2) OR push_bit 14 (of_nat opc1) OR
       push_bit 10 (of_nat crn) OR push_bit 1 (of_nat crm)"

text \<open>
  \<^verbatim>\<open>CP15_32_PERFORM_WRITE(crn, opc1, crm, opc2)\<close>: on a match, writes \<open>val\<close> to the
  register and yields true.
\<close>

definition CP15_32_PERFORM_WRITE ::
    "u32 \<Rightarrow> u32 \<Rightarrow> machine \<Rightarrow> nat \<times> nat \<times> nat \<times> nat \<Rightarrow> bool \<times> machine" where
  "CP15_32_PERFORM_WRITE h val m t =
     (case t of (crn, opc1, crm, opc2) \<Rightarrow>
        if HSR_MATCH_MCR_MRC h crn opc1 crm opc2
        then (True, arm_write_sysreg_32 opc1 crn crm opc2 val m)
        else (False, m))"

text \<open>
  The chain of \<^verbatim>\<open>CP15_32_PERFORM_WRITE(...) || ...\<close> in the handler, in its order:
  TTBR0, TTBR1, TTBCR, DACR, DFSR, IFSR, DFAR, IFAR, ADFSR, AIFSR, MAIR0, MAIR1,
  CONTEXTIDR. The operator stops at the first match.
\<close>

definition cp15_32_write_chain :: "(nat \<times> nat \<times> nat \<times> nat) list" where
  "cp15_32_write_chain =
     [(2, 0, 0, 0), (2, 0, 0, 1), (2, 0, 0, 2), (3, 0, 0, 0), (5, 0, 0, 0), (5, 0, 0, 1),
      (6, 0, 0, 0), (6, 0, 0, 2), (5, 0, 1, 0), (5, 0, 1, 1), (10, 0, 2, 0), (10, 0, 2, 1),
      (13, 0, 0, 1)]"

fun perform_write_chain ::
    "u32 \<Rightarrow> u32 \<Rightarrow> machine \<Rightarrow> (nat \<times> nat \<times> nat \<times> nat) list \<Rightarrow> bool \<times> machine" where
  "perform_write_chain h val m [] = (False, m)"
| "perform_write_chain h val m (t # ts) =
     (case CP15_32_PERFORM_WRITE h val m t of
        (True, m1) \<Rightarrow> (True, m1)
      | (False, m1) \<Rightarrow> perform_write_chain h val m1 ts)"

text \<open>
  \<^verbatim>\<open>arch_handle_cp15_32\<close>. The local \<^verbatim>\<open>val\<close> is not initialised in C; \<open>val0\<close> is what the
  stack slot holds on entry.
\<close>

definition arch_handle_cp15_32 ::
    "trap_context \<Rightarrow> machine \<Rightarrow> u32 \<Rightarrow> trap_return \<times> trap_context \<times> machine" where
  "arch_handle_cp15_32 ctx m val0 =
     (let h = hsr ctx;
          rt = unat (drop_bit 5 h AND 0xf);
          read = h AND 1;
          (ctx1, m1, val1) =
             (if read = 0 then access_cell_reg ctx m rt val0 True else (ctx, m, val0))
      in
        case
          (if HSR_MATCH_MCR_MRC (hsr ctx1) 1 0 0 1 then
             (if read \<noteq> 0 then Some (m1, ucast (arm_read_sysreg ACTLR_EL1 m1)) else Some (m1, val1))
           else if read \<noteq> 0 then None
           else if HSR_MATCH_MCR_MRC h 1 0 0 0 then
             Some (arm_write_sysreg SCTLR_EL1 (ucast val1) m1, val1)
           else
             (case perform_write_chain h val1 m1 cp15_32_write_chain of
                (True, m2) \<Rightarrow> Some (m2, val1)
              | (False, m2) \<Rightarrow> None))
        of
          None \<Rightarrow> (TRAP_UNHANDLED, ctx1, m1)
        | Some (m2, val2) \<Rightarrow>
            (let (ctx2, m3, val3) =
                   (if read \<noteq> 0 then access_cell_reg ctx1 m2 rt val2 False else (ctx1, m2, val2))
             in (TRAP_HANDLED, arch_skip_instruction ctx2, m3)))"

subsection \<open>The decoding of a CP15 access, as the specification words it\<close>

text \<open>The tuple (CRn, op1, CRm, op2) of a trapped MCR or MRC, and its direction.\<close>

definition cp15_tuple :: "u32 \<Rightarrow> nat \<times> nat \<times> nat \<times> nat" where
  "cp15_tuple h =
     (unat (take_bit 4 (drop_bit 10 h)), unat (take_bit 3 (drop_bit 14 h)),
      unat (take_bit 4 (drop_bit 1 h)), unat (take_bit 3 (drop_bit 17 h)))"

definition cp15_is_write :: "u32 \<Rightarrow> bool" where
  "cp15_is_write h \<longleftrightarrow> \<not> bit h 0"

text \<open>
  The allow-list of the specification: SCTLR, TTBR0, TTBR1, TTBCR, DACR, DFSR, IFSR, DFAR,
  IFAR, ADFSR, AIFSR, MAIR0, MAIR1, CONTEXTIDR; and ACTLR.
\<close>

definition cp15_write_allow_list :: "(nat \<times> nat \<times> nat \<times> nat) list" where
  "cp15_write_allow_list =
     [(1, 0, 0, 0), (2, 0, 0, 0), (2, 0, 0, 1), (2, 0, 0, 2), (3, 0, 0, 0), (5, 0, 0, 0),
      (5, 0, 0, 1), (6, 0, 0, 0), (6, 0, 0, 2), (5, 0, 1, 0), (5, 0, 1, 1), (10, 0, 2, 0),
      (10, 0, 2, 1), (13, 0, 0, 1)]"

definition cp15_ACTLR :: "nat \<times> nat \<times> nat \<times> nat" where
  "cp15_ACTLR = (1, 0, 0, 1)"

text \<open>The register a tuple of the allow-list designates in a write of the handler.\<close>

definition cp15_written_reg :: "nat \<times> nat \<times> nat \<times> nat \<Rightarrow> sysreg" where
  "cp15_written_reg t =
     (case t of (crn, opc1, crm, opc2) \<Rightarrow>
        if t = (1, 0, 0, 0) then SCTLR_EL1 else CP15_32 opc1 crn crm opc2)"

text \<open>The four fields, packed as the macro packs its arguments (used in the proofs).\<close>

definition pack_fields :: "u32 \<Rightarrow> u32 \<Rightarrow> u32 \<Rightarrow> u32 \<Rightarrow> u32" where
  "pack_fields crn opc1 crm opc2 =
     push_bit 17 opc2 OR push_bit 14 opc1 OR push_bit 10 crn OR push_bit 1 crm"

text \<open>Example states for the closed instances below.\<close>

definition zero_machine :: machine where
  "zero_machine = \<lparr>banked = (\<lambda>_. 0), sysregs = (\<lambda>_. 0), sysreg_writes = [], console = []\<rparr>"

definition usr_ctx :: trap_context where
  "usr_ctx =
     \<lparr>regs = [0x100, 0x101, 0x102, 0x103, 0x104, 0x105, 0x106, 0x107, 0x108, 0x109, 0x10a, 0x10b,
              0x10c, 0x10d],
      cpsr = 0x60000010, hsr = 0x0E020440, pc = 0x8000\<rparr>"

section \<open>Per-CPU data, cells and the PSCI emulation (control.c, psci.c)\<close>

subsection \<open>The data\<close>

text \<open>
  \<^verbatim>\<open>struct cpu_set\<close>, \<^verbatim>\<open>struct cell\<close> (the fields the code under study uses),
  \<^verbatim>\<open>struct registers\<close> and \<^verbatim>\<open>struct per_cpu\<close>. A \<^verbatim>\<open>struct per_cpu *\<close> is the index of the CPU
  in the per-CPU table, a \<^verbatim>\<open>struct cell *\<close> the index of the cell in the table of cells.
\<close>

record cpu_set =
  max_cpu_id :: nat
  bitmap :: "nat \<Rightarrow> bool"

record cell =
  cell_cpu_set :: cpu_set
  last_virt_id :: u32

record registers =
  exit_reason :: u32
  usr :: "u32 list"

datatype cpu_stat =
    VMEXITS_TOTAL | VMEXITS_MANAGEMENT | VMEXITS_VSGI | VMEXITS_VIRQ | VMEXITS_MAINTENANCE
  | VMEXITS_PSCI

record per_cpu =
  cpu_id :: nat
  virt_id :: u32
  cell_ptr :: nat
  guest_regs :: registers
  stats :: "cpu_stat \<Rightarrow> u32"
  cpu_on_entry :: u32
  cpu_on_context :: u32
  park :: bool
  reset :: bool
  suspend_cpu :: bool
  cpu_suspended :: bool
  wait_for_poweron :: bool
  flush_vcpu_caches :: bool

text \<open>
  Modelled from the spec: \<^verbatim>\<open>struct sgi\<close> of \<^verbatim>\<open>asm/irqchip.h\<close> and the SGI ids of the platform
  configuration, which are not among the source files. The ids are kept symbolic.
\<close>

datatype sgi_id = SGI_INJECT | SGI_EVENT

record sgi =
  routing_mode :: "8 word"
  aff1 :: "8 word"
  aff2 :: "8 word"
  aff3 :: "8 word"
  targets :: u16
  sgi_ident :: sgi_id

text \<open>A store to a field of a CPU's \<^verbatim>\<open>struct per_cpu\<close>.\<close>

datatype pc_store =
    Set_virt_id u32
  | Set_guest_regs registers
  | Set_guest_usr nat u32
  | Set_stat cpu_stat u32
  | Set_cpu_on_entry u32
  | Set_cpu_on_context u32
  | Set_park bool
  | Set_reset bool
  | Set_suspend_cpu bool
  | Set_cpu_suspended bool
  | Set_wait_for_poweron bool
  | Set_flush_vcpu_caches bool

datatype mm_ref = Cell_mm nat | Parking_mm

text \<open>
  What a function does that other CPUs or the collaborators of section 6 of the
  specification can observe, in program order: lock operations, stores to per-CPU data
  and to a cell, SGIs sent, and the calls into the paging, irqchip and SMP collaborators.
\<close>

datatype event =
    SpinLock nat
  | SpinUnlock nat
  | Store nat pc_store
  | StoreLastVirtId nat u32
  | SendSgi sgi
  | PagingCellInit nat
  | PagingCellDestroy nat
  | IrqchipCellInit nat
  | SmpCellInit nat
  | PagingVcpuInit mm_ref
  | IrqchipCpuReset nat

text \<open>
  Modelled from the spec: constants of \<^verbatim>\<open>asm/sysregs.h\<close>, \<^verbatim>\<open>asm/processor.h\<close> and
  \<^verbatim>\<open>asm/percpu.h\<close>, which are not among the source files. No claim depends on their
  values, so they are parameters of the state.
\<close>

record arch_consts =
  SCTLR_MASK :: u32
  RESET_PSR :: u32
  MPIDR_MP_BIT :: u32
  MPIDR_CPUID_MASK :: u32

text \<open>
  The state: the per-CPU table, the cells, the registers of the executing CPU, and the
  trace of events so far.
\<close>

record world =
  percpu :: "nat \<Rightarrow> per_cpu"
  cells :: "nat \<Rightarrow> cell"
  hw :: machine
  consts_of :: arch_consts
  events :: "event list"

fun apply_store :: "pc_store \<Rightarrow> per_cpu \<Rightarrow> per_cpu" where
  "apply_store (Set_virt_id v) p = p\<lparr>virt_id := v\<rparr>"
| "apply_store (Set_guest_regs r) p = p\<lparr>guest_regs := r\<rparr>"
| "apply_store (Set_guest_usr i v) p =
     p\<lparr>guest_regs := (guest_regs p)\<lparr>usr := (usr (guest_regs p))[i := v]\<rparr>\<rparr>"
| "apply_store (Set_stat s v) p = p\<lparr>stats := (stats p)(s := v)\<rparr>"
| "apply_store (Set_cpu_on_entry v) p = p\<lparr>cpu_on_entry := v\<rparr>"
| "apply_store (Set_cpu_on_context v) p = p\<lparr>cpu_on_context := v\<rparr>"
| "apply_store (Set_park b) p = p\<lparr>park := b\<rparr>"
| "apply_store (Set_reset b) p = p\<lparr>reset := b\<rparr>"
| "apply_store (Set_suspend_cpu b) p = p\<lparr>suspend_cpu := b\<rparr>"
| "apply_store (Set_cpu_suspended b) p = p\<lparr>cpu_suspended := b\<rparr>"
| "apply_store (Set_wait_for_poweron b) p = p\<lparr>wait_for_poweron := b\<rparr>"
| "apply_store (Set_flush_vcpu_caches b) p = p\<lparr>flush_vcpu_caches := b\<rparr>"

definition emit :: "event \<Rightarrow> world \<Rightarrow> world" where
  "emit e w = w\<lparr>events := events w @ [e]\<rparr>"

definition pc_write :: "nat \<Rightarrow> pc_store \<Rightarrow> world \<Rightarrow> world" where
  "pc_write cpu st w =
     emit (Store cpu st) (w\<lparr>percpu := (percpu w)(cpu := apply_store st (percpu w cpu))\<rparr>)"

definition spin_lock :: "nat \<Rightarrow> world \<Rightarrow> world" where
  "spin_lock cpu w = emit (SpinLock cpu) w"

definition spin_unlock :: "nat \<Rightarrow> world \<Rightarrow> world" where
  "spin_unlock cpu w = emit (SpinUnlock cpu) w"

definition on_hw :: "(machine \<Rightarrow> machine) \<Rightarrow> world \<Rightarrow> world" where
  "on_hw f w = w\<lparr>hw := f (hw w)\<rparr>"

text \<open>
  Modelled from the spec: \<^verbatim>\<open>for_each_cpu(cpu, set)\<close> of \<^verbatim>\<open>jailhouse/control.h\<close>, which is
  not among the source files, walks the CPUs of the set in ascending order.
\<close>

definition cpus_of :: "cpu_set \<Rightarrow> nat list" where
  "cpus_of s = filter (bitmap s) [0..<Suc (max_cpu_id s)]"

subsection \<open>CPU reset and parking (control.c)\<close>

text \<open>
  \<^verbatim>\<open>cpu_reset\<close>, run by a CPU on itself. The calls \<^verbatim>\<open>arm_paging_vcpu_init\<close> and
  \<^verbatim>\<open>irqchip_cpu_reset\<close> go to collaborators.
\<close>

definition cpu_reset :: "nat \<Rightarrow> world \<Rightarrow> world" where
  "cpu_reset this w =
     (let cell = cell_ptr (percpu w this);
          w1 = pc_write this (Set_guest_regs \<lparr>exit_reason = 0, usr = replicate 14 0\<rparr>) w;
          w2 = on_hw (fold (\<lambda>r. arm_write_banked_reg r 0)
                 [SP Usr, SP Svc, SP Abt, SP Und, SP Irq, SP Fiq,
                  LR Svc, LR Abt, LR Und, LR Irq, LR Fiq,
                  R_fiq 8, R_fiq 9, R_fiq 10, R_fiq 11, R_fiq 12,
                  SPSR Svc, SPSR Abt, SPSR Und, SPSR Irq, SPSR Fiq]) w1;
          sctlr = (ucast (arm_read_sysreg SCTLR_EL1 (hw w2)) :: u32)
                    AND NOT (SCTLR_MASK (consts_of w2));
          w3 = on_hw (arm_write_sysreg SCTLR_EL1 (ucast sctlr)) w2;
          w4 = on_hw (fold (\<lambda>r. arm_write_sysreg r 0)
                 [CPACR_EL1, CONTEXTIDR_EL1, PAR_EL1, TTBR0_EL1, TTBR1_EL1, CSSELR_EL1,
                  CNTKCTL_EL1, CNTP_CTL_EL0, CNTP_CVAL_EL0, CNTV_CTL_EL0, CNTV_CVAL_EL0,
                  TTBCR, DACR, VBAR, DFSR, DFAR, IFSR, IFAR, ADFSR, AIFSR, MAIR0, MAIR1,
                  AMAIR0, AMAIR1, TPIDRURW, TPIDRURO, TPIDRPRW]) w3;
          w5 = on_hw (arm_write_banked_reg SPSR_hyp (RESET_PSR (consts_of w4))) w4;
          w6 = on_hw (arm_write_banked_reg ELR_hyp (cpu_on_entry (percpu w5 this))) w5;
          w7 = pc_write this (Set_guest_usr 1 (cpu_on_context (percpu w6 this))) w6;
          w8 = on_hw (arm_write_sysreg VMPIDR_EL2
                 (ucast (virt_id (percpu w7 this) OR MPIDR_MP_BIT (consts_of w7)))) w7;
          w9 = emit (PagingVcpuInit (Cell_mm cell)) w8
      in emit (IrqchipCpuReset this) w9)"

definition enter_cpu_off :: "nat \<Rightarrow> world \<Rightarrow> world" where
  "enter_cpu_off cpu w =
     pc_write cpu (Set_wait_for_poweron True) (pc_write cpu (Set_park False) w)"

definition arm_cpu_park :: "nat \<Rightarrow> world \<Rightarrow> world" where
  "arm_cpu_park this w =
     (let w1 = spin_lock this w;
          w2 = enter_cpu_off this w1;
          w3 = spin_unlock this w2;
          w4 = cpu_reset this w3;
          w5 = on_hw (arm_write_banked_reg ELR_hyp 0) w4
      in emit (PagingVcpuInit Parking_mm) w5)"

text \<open>\<^verbatim>\<open>arm_cpu_kick\<close>: \<^verbatim>\<open>struct sgi sgi = {}\<close> and the two assignments.\<close>

definition arm_cpu_kick :: "nat \<Rightarrow> world \<Rightarrow> world" where
  "arm_cpu_kick cpu w =
     emit (SendSgi \<lparr>routing_mode = 0, aff1 = 0, aff2 = 0, aff3 = 0,
                    targets = push_bit cpu 1, sgi_ident = SGI_EVENT\<rparr>) w"

text \<open>\<^verbatim>\<open>arm_cpu_virt2phys\<close>; \<open>None\<close> is the return value -1.\<close>

definition arm_cpu_virt2phys :: "world \<Rightarrow> nat \<Rightarrow> u32 \<Rightarrow> nat option" where
  "arm_cpu_virt2phys w c v =
     find (\<lambda>cpu. virt_id (percpu w cpu) = v) (cpus_of (cell_cpu_set (cells w c)))"

text \<open>
  Modelled from the spec: \<^verbatim>\<open>arm_cpu_by_mpidr\<close> of \<^verbatim>\<open>lib.c\<close>, which is not among the source
  files, translates the CPU id part of the MPIDR to a physical CPU of the cell.
\<close>

definition arm_cpu_by_mpidr :: "world \<Rightarrow> nat \<Rightarrow> u32 \<Rightarrow> nat option" where
  "arm_cpu_by_mpidr w c mpidr =
     arm_cpu_virt2phys w c (mpidr AND MPIDR_CPUID_MASK (consts_of w))"

subsection \<open>PSCI (psci.c)\<close>

text \<open>
  Modelled from the spec: the function ids and result codes of \<^verbatim>\<open>asm/psci.h\<close>, which is
  not among the source files (section 6 of the specification, the PSCI standard and, for
  the two legacy ids, the firmware's numbering).
\<close>

definition PSCI_VERSION :: u32 where "PSCI_VERSION = 0x84000000"
definition PSCI_CPU_OFF :: u32 where "PSCI_CPU_OFF = 0x84000002"
definition PSCI_CPU_ON_32 :: u32 where "PSCI_CPU_ON_32 = 0x84000003"
definition PSCI_AFFINITY_INFO_32 :: u32 where "PSCI_AFFINITY_INFO_32 = 0x84000004"
definition PSCI_CPU_OFF_V0_1_UBOOT :: u32 where "PSCI_CPU_OFF_V0_1_UBOOT = 0x95c1ba5f"
definition PSCI_CPU_ON_V0_1_UBOOT :: u32 where "PSCI_CPU_ON_V0_1_UBOOT = 0x95c1ba60"

definition PSCI_SUCCESS :: int where "PSCI_SUCCESS = 0"
definition PSCI_NOT_SUPPORTED :: int where "PSCI_NOT_SUPPORTED = - 1"
definition PSCI_DENIED :: int where "PSCI_DENIED = - 3"
definition PSCI_ALREADY_ON :: int where "PSCI_ALREADY_ON = - 4"
definition PSCI_CPU_IS_ON :: int where "PSCI_CPU_IS_ON = 0"
definition PSCI_CPU_IS_OFF :: int where "PSCI_CPU_IS_OFF = 1"
definition PSCI_INVALID_ADDRESS :: u32 where "PSCI_INVALID_ADDRESS = 0xffffffff"

text \<open>
  \<^verbatim>\<open>psci_emulate_cpu_on(cpu_data, ctx)\<close>; \<open>this\<close> is \<^verbatim>\<open>cpu_data\<close>. The context is only
  read.
\<close>

definition psci_emulate_cpu_on :: "nat \<Rightarrow> trap_context \<Rightarrow> world \<Rightarrow> int \<times> world" where
  "psci_emulate_cpu_on this ctx w =
     (case arm_cpu_by_mpidr w (cell_ptr (percpu w this)) (regs ctx ! 1) of
        None \<Rightarrow> (PSCI_DENIED, w)
      | Some cpu \<Rightarrow>
          (let w1 = spin_lock cpu w;
               (kick_cpu, result, w2) =
                  (if wait_for_poweron (percpu w1 cpu) then
                     (let w_a = pc_write cpu (Set_cpu_on_entry (regs ctx ! 2)) w1;
                          w_b = pc_write cpu (Set_cpu_on_context (regs ctx ! 3)) w_a;
                          w_c = pc_write cpu (Set_reset True) w_b
                      in (True, PSCI_SUCCESS, w_c))
                   else (False, PSCI_ALREADY_ON, w1));
               w3 = spin_unlock cpu w2;
               w4 = (if kick_cpu then arm_cpu_kick cpu w3 else w3)
           in (result, w4)))"

definition psci_emulate_affinity_info :: "nat \<Rightarrow> trap_context \<Rightarrow> world \<Rightarrow> int \<times> world" where
  "psci_emulate_affinity_info this ctx w =
     (case arm_cpu_by_mpidr w (cell_ptr (percpu w this)) (regs ctx ! 1) of
        None \<Rightarrow> (PSCI_DENIED, w)
      | Some cpu \<Rightarrow>
          (if wait_for_poweron (percpu w cpu) then PSCI_CPU_IS_OFF else PSCI_CPU_IS_ON, w))"

text \<open>\<^verbatim>\<open>psci_dispatch(ctx)\<close> on the CPU \<open>this\<close> (\<^verbatim>\<open>this_cpu_data()\<close>).\<close>

definition psci_dispatch :: "nat \<Rightarrow> trap_context \<Rightarrow> world \<Rightarrow> int \<times> world" where
  "psci_dispatch this ctx w =
     (let function_id = regs ctx ! 0;
          w1 = pc_write this
                 (Set_stat VMEXITS_PSCI (stats (percpu w this) VMEXITS_PSCI + 1)) w
      in
        if function_id = PSCI_VERSION then (2, w1)
        else if function_id = PSCI_CPU_OFF \<or> function_id = PSCI_CPU_OFF_V0_1_UBOOT then
          (0, arm_cpu_park this w1)
        else if function_id = PSCI_CPU_ON_32 \<or> function_id = PSCI_CPU_ON_V0_1_UBOOT then
          psci_emulate_cpu_on this ctx w1
        else if function_id = PSCI_AFFINITY_INFO_32 then
          psci_emulate_affinity_info this ctx w1
        else (PSCI_NOT_SUPPORTED, w1))"

subsection \<open>Cell creation (control.c)\<close>

text \<open>
  The loop of \<^verbatim>\<open>arch_cell_create\<close> over the CPUs of the cell; \<open>v\<close> is the local
  \<^verbatim>\<open>virt_id\<close>, an \<^verbatim>\<open>unsigned int\<close>.
\<close>

fun assign_virt_ids :: "nat list \<Rightarrow> u32 \<Rightarrow> world \<Rightarrow> u32 \<times> world" where
  "assign_virt_ids [] v w = (v, w)"
| "assign_virt_ids (cpu # cpus) v w =
     (let w1 = pc_write cpu (Set_cpu_on_entry (if v = 0 then 0 else PSCI_INVALID_ADDRESS)) w;
          w2 = pc_write cpu (Set_virt_id v) w1
      in assign_virt_ids cpus (v + 1) w2)"

text \<open>
  \<^verbatim>\<open>arch_cell_create(cell)\<close>. What \<^verbatim>\<open>arm_paging_cell_init\<close> and \<^verbatim>\<open>irqchip_cell_init\<close>
  return is decided by the collaborators: \<open>paging_err\<close> and \<open>irqchip_err\<close>.
\<close>

definition arch_cell_create :: "nat \<Rightarrow> int \<Rightarrow> int \<Rightarrow> world \<Rightarrow> int \<times> world" where
  "arch_cell_create c paging_err irqchip_err w =
     (let w1 = emit (PagingCellInit c) w in
        if paging_err \<noteq> 0 then (paging_err, w1)
        else
          (let (v, w2) = assign_virt_ids (cpus_of (cell_cpu_set (cells w1 c))) 0 w1;
               w3 = emit (StoreLastVirtId c (v - 1))
                      (w2\<lparr>cells := (cells w2)(c := (cells w2 c)\<lparr>last_virt_id := v - 1\<rparr>)\<rparr>);
               w4 = emit (IrqchipCellInit c) w3
           in
             if irqchip_err \<noteq> 0 then (irqchip_err, emit (PagingCellDestroy c) w4)
             else (0, emit (SmpCellInit c) w4)))"

section \<open>Interrupt injection (gic-v2.c)\<close>

text \<open>
  The part of the GIC's hypervisor interface that \<^verbatim>\<open>gic_inject_irq\<close> touches: the two
  words of the empty-list-register status (\<^verbatim>\<open>GICH_ELSR0\<close>, \<^verbatim>\<open>GICH_ELSR1\<close>) and the list
  registers.
\<close>

record gich =
  gich_elsr0 :: u32
  gich_elsr1 :: u32
  gich_lr :: "nat \<Rightarrow> u32"

text \<open>
  Modelled from the spec: the constants and accessors of \<^verbatim>\<open>asm/gic.h\<close>,
  \<^verbatim>\<open>asm/gic_common.h\<close>, \<^verbatim>\<open>jailhouse/bitops.h\<close> and \<^verbatim>\<open>jailhouse/errno.h\<close>, which are not
  among the source files. A list register holds the virtual id in bits 9:0, the physical
  id from bit 10, the pending bit 28, the active bit 29 and the hardware bit 31; bit 19
  asks for an EOI maintenance interrupt. SGIs are the ids below 16. \<^verbatim>\<open>test_bit(nr, addr)\<close>
  reads bit \<open>nr mod 32\<close> of the word \<open>nr div 32\<close> of an array of \<^verbatim>\<open>unsigned long\<close>.
\<close>

definition GICH_LR_VIRT_ID_MASK :: u32 where "GICH_LR_VIRT_ID_MASK = 0x3ff"
definition GICH_LR_PHYS_ID_SHIFT :: nat where "GICH_LR_PHYS_ID_SHIFT = 10"
definition GICH_LR_EOI_BIT :: u32 where "GICH_LR_EOI_BIT = 0x80000"
definition GICH_LR_PENDING_BIT :: u32 where "GICH_LR_PENDING_BIT = 0x10000000"
definition GICH_LR_ACTIVE_BIT :: u32 where "GICH_LR_ACTIVE_BIT = 0x20000000"
definition GICH_LR_HW_BIT :: u32 where "GICH_LR_HW_BIT = 0x80000000"

definition EBUSY :: int where "EBUSY = 16"
definition EEXIST :: int where "EEXIST = 17"

definition is_sgi :: "u16 \<Rightarrow> bool" where
  "is_sgi irqn \<longleftrightarrow> (ucast irqn :: u32) < 16"

definition test_bit :: "nat \<Rightarrow> u32 list \<Rightarrow> bool" where
  "test_bit nr addr \<longleftrightarrow> bit (addr ! (nr div 32)) (nr mod 32)"

definition gic_read_lr :: "gich \<Rightarrow> nat \<Rightarrow> u32" where
  "gic_read_lr g n = gich_lr g n"

text \<open>
  The hardware's side of a write to a list register: the register's bit of the
  empty-list-register status follows its new content. By the GIC architecture a list
  register is empty when it is neither pending nor active and either is hardware-backed
  or asks for no EOI maintenance interrupt.
\<close>

definition lr_is_empty :: "u32 \<Rightarrow> bool" where
  "lr_is_empty lr \<longleftrightarrow>
     lr AND (GICH_LR_PENDING_BIT OR GICH_LR_ACTIVE_BIT) = 0 \<and>
     (lr AND GICH_LR_HW_BIT \<noteq> 0 \<or> lr AND GICH_LR_EOI_BIT = 0)"

definition gic_write_lr :: "nat \<Rightarrow> u32 \<Rightarrow> gich \<Rightarrow> gich" where
  "gic_write_lr n val g =
     (let put = (\<lambda>k w. if lr_is_empty val then set_bit k w else unset_bit k w) in
        g\<lparr>gich_lr := (gich_lr g)(n := val),
          gich_elsr0 := (if n < 32 then put n (gich_elsr0 g) else gich_elsr0 g),
          gich_elsr1 := (if 32 \<le> n \<and> n < 64 then put (n - 32) (gich_elsr1 g) else gich_elsr1 g)\<rparr>)"

text \<open>
  The loop of \<^verbatim>\<open>gic_inject_irq\<close> over the list registers \<open>0, ..., gic_num_lr - 1\<close>:
  \<open>Inl\<close> is the early return, \<open>Inr\<close> the value of \<^verbatim>\<open>first_free\<close> after the loop.
\<close>

fun inject_scan :: "gich \<Rightarrow> u32 list \<Rightarrow> u16 \<Rightarrow> nat list \<Rightarrow> int \<Rightarrow> int + int" where
  "inject_scan g elsr irq_id [] first_free = Inr first_free"
| "inject_scan g elsr irq_id (i # rest) first_free =
     (if test_bit i elsr then
        inject_scan g elsr irq_id rest (if first_free = - 1 then int i else first_free)
      else
        (let lr = gic_read_lr g i in
           if lr AND GICH_LR_VIRT_ID_MASK = ucast irq_id then Inl (- EEXIST)
           else inject_scan g elsr irq_id rest first_free))"

text \<open>
  \<^verbatim>\<open>gic_inject_irq(cpu_data, irq_id)\<close>; \<^verbatim>\<open>cpu_data\<close> is not used. \<open>num_lr\<close> is the static
  \<^verbatim>\<open>gic_num_lr\<close>, which \<^verbatim>\<open>gic_cpu_init\<close> sets to a value between 1 and 64.
\<close>

definition gic_inject_irq :: "nat \<Rightarrow> u16 \<Rightarrow> gich \<Rightarrow> int \<times> gich" where
  "gic_inject_irq num_lr irq_id g =
     (let elsr = [gich_elsr0 g, gich_elsr1 g] in
        case inject_scan g elsr irq_id [0..<num_lr] (- 1) of
          Inl ret \<Rightarrow> (ret, g)
        | Inr first_free \<Rightarrow>
            if first_free = - 1 then (- EBUSY, g)
            else
              (let lr0 = ucast irq_id;
                   lr1 = lr0 OR GICH_LR_PENDING_BIT;
                   lr2 = (if \<not> is_sgi irq_id then
                            (lr1 OR GICH_LR_HW_BIT) OR push_bit GICH_LR_PHYS_ID_SHIFT (ucast irq_id)
                          else lr1)
               in (0, gic_write_lr (nat first_free) lr2 g)))"

subsection \<open>The notions of the specification\<close>

text \<open>
  List register \<open>i\<close> is empty (its status bit is set); an occupied list register holds the
  virtual id \<open>irq_id\<close>; the entry that an injection of \<open>irq_id\<close> writes.
\<close>

definition lr_empty :: "gich \<Rightarrow> nat \<Rightarrow> bool" where
  "lr_empty g i \<longleftrightarrow> test_bit i [gich_elsr0 g, gich_elsr1 g]"

definition lr_holds :: "gich \<Rightarrow> nat \<Rightarrow> u16 \<Rightarrow> bool" where
  "lr_holds g i irq_id \<longleftrightarrow> \<not> lr_empty g i \<and> take_bit 10 (gich_lr g i) = ucast irq_id"

definition injected_entry :: "u16 \<Rightarrow> u32" where
  "injected_entry irq_id =
     (if unat irq_id < 16 then ucast irq_id OR push_bit 28 1
      else ucast irq_id OR push_bit 28 1 OR push_bit 31 1 OR push_bit 10 (ucast irq_id))"

text \<open>An interface with every list register empty.\<close>

definition empty_gich :: gich where
  "empty_gich = \<lparr>gich_elsr0 = 0xffffffff, gich_elsr1 = 0xffffffff, gich_lr = (\<lambda>n. 0)\<rparr>"

section \<open>Suspending a CPU (control.c)\<close>




















subsection \<open>Auxiliary notions and example states\<close>

text \<open>The stores to a statistics counter, among the events.\<close>

fun is_stat_store :: "event \<Rightarrow> bool" where
  "is_stat_store (Store c (Set_stat s v)) = True"
| "is_stat_store e = False"

text \<open>
  The second end-to-end scenario of the specification: six CPUs, the cell 1 owns the CPUs
  3 and 5, CPU 3 is its primary and runs, CPU 5 waits to be powered on.
\<close>

definition example_percpu :: "nat \<Rightarrow> per_cpu" where
  "example_percpu n =
     \<lparr>cpu_id = n,
      virt_id = (if n = 3 then 0 else if n = 5 then 1 else of_nat n),
      cell_ptr = (if n = 3 \<or> n = 5 then 1 else 0),
      guest_regs = \<lparr>exit_reason = 0, usr = replicate 14 0\<rparr>,
      stats = (\<lambda>s. 0),
      cpu_on_entry = (if n = 5 then PSCI_INVALID_ADDRESS else 0),
      cpu_on_context = 0,
      park = False, reset = False, suspend_cpu = False, cpu_suspended = False,
      wait_for_poweron = (n = 5), flush_vcpu_caches = False\<rparr>"

definition example_cells :: "nat \<Rightarrow> cell" where
  "example_cells c =
     \<lparr>cell_cpu_set =
        \<lparr>max_cpu_id = 5,
         bitmap = (\<lambda>n. if c = 1 then n = 3 \<or> n = 5 else n \<le> 5 \<and> n \<noteq> 3 \<and> n \<noteq> 5)\<rparr>,
      last_virt_id = (if c = 1 then 1 else 5)\<rparr>"

definition example_world :: world where
  "example_world =
     \<lparr>percpu = example_percpu, cells = example_cells, hw = zero_machine,
      consts_of = \<lparr>SCTLR_MASK = 0x72383007, RESET_PSR = 0x1d3, MPIDR_MP_BIT = 0x80000000,
                   MPIDR_CPUID_MASK = 0x00ffffff\<rparr>,
      events = []\<rparr>"

text \<open>The same machine before the cell 1 is created: every CPU carries its physical id.\<close>

definition root_percpu :: "nat \<Rightarrow> per_cpu" where
  "root_percpu n =
     (example_percpu n)\<lparr>virt_id := of_nat n, cell_ptr := 0,
        cpu_on_entry := PSCI_INVALID_ADDRESS, wait_for_poweron := False\<rparr>"

definition root_world :: world where
  "root_world = example_world\<lparr>percpu := root_percpu\<rparr>"

text \<open>A guest's call \<^verbatim>\<open>CPU_ON(1, 0x80001000, 0xCAFE)\<close>, and one with an unknown function id.\<close>

definition cpu_on_ctx :: trap_context where
  "cpu_on_ctx =
     \<lparr>regs = [0x84000003, 1, 0x80001000, 0xCAFE, 0, 0, 0, 0, 0, 0, 0, 0, 0, 0],
      cpsr = 0x60000013, hsr = 0x5E000000, pc = 0x8000\<rparr>"

definition unknown_psci_ctx :: trap_context where
  "unknown_psci_ctx =
     \<lparr>regs = [0x8400000a, 0, 0, 0, 0, 0, 0, 0, 0, 0, 0, 0, 0, 0],
      cpsr = 0x60000013, hsr = 0x5E000000, pc = 0x8000\<rparr>"



section \<open>Bit-level facts about the PSR's IT field\<close>

lemma numeral_3_mask: "(3::u32) = mask 2"
  by (simp add: mask_eq_exp_minus_1)

lemma numeral_fc_mask: "(0xfc::u32) = push_bit 2 (mask 6)"
  by (simp add: mask_eq_exp_minus_1)

lemma numeral_ff_mask: "(0xff::u32) = mask 8"
  by (simp add: mask_eq_exp_minus_1)

lemma numeral_7_mask: "(7::u32) = mask 3"
  by (simp add: mask_eq_exp_minus_1)

lemma numeral_1f_mask: "(0x1f::u32) = mask 5"
  by (simp add: mask_eq_exp_minus_1)

lemma bit_PSR_IT:
  "bit (PSR_IT psr) n \<longleftrightarrow>
     (n < 2 \<and> bit psr (n + 25)) \<or> (2 \<le> n \<and> n < 8 \<and> bit psr (n + 8))"
  unfolding PSR_IT_def numeral_3_mask numeral_fc_mask
  by (auto simp add: bit_simps add.commute)

lemma bit_PSR_IT_MASK:
  "bit (PSR_IT_MASK it) n \<longleftrightarrow>
     (25 \<le> n \<and> n < 27 \<and> bit it (n - 25)) \<or> (10 \<le> n \<and> n < 16 \<and> bit it (n - 8))"
  unfolding PSR_IT_MASK_def numeral_3_mask numeral_fc_mask
  by (auto simp add: bit_simps add.commute)

lemma bit_PSR_IT_MASK_ff:
  "bit (PSR_IT_MASK 0xff) n \<longleftrightarrow> (25 \<le> n \<and> n < 27) \<or> (10 \<le> n \<and> n < 16)"
  unfolding bit_PSR_IT_MASK numeral_ff_mask
  by (auto simp add: bit_simps)

lemma PSR_IT_MASK_ff: "PSR_IT_MASK 0xff = 0x0600fc00"
  by (simp add: PSR_IT_MASK_def)

lemma PSR_IT_update:
  "PSR_IT ((psr AND NOT (PSR_IT_MASK 0xff)) OR PSR_IT_MASK x) = x AND 0xff"
  unfolding numeral_ff_mask
  by (rule bit_eqI)
    (auto simp add: bit_PSR_IT bit_and_iff bit_or_iff bit_not_iff bit_PSR_IT_MASK
      bit_PSR_IT_MASK_ff[unfolded numeral_ff_mask] bit_mask_iff)

lemma PSR_IT_frame:
  "((psr AND NOT (PSR_IT_MASK 0xff)) OR PSR_IT_MASK x) AND NOT (PSR_IT_MASK 0xff) =
     psr AND NOT (PSR_IT_MASK 0xff)"
  unfolding numeral_ff_mask
  by (rule bit_eqI)
    (auto simp add: bit_and_iff bit_or_iff bit_not_iff bit_PSR_IT_MASK
      bit_PSR_IT_MASK_ff[unfolded numeral_ff_mask] bit_mask_iff)

lemma PSR_IT_zero_iff: "psr AND PSR_IT_MASK 0xff = 0 \<longleftrightarrow> PSR_IT psr = 0"
proof
  assume a: "psr AND PSR_IT_MASK 0xff = 0"
  show "PSR_IT psr = 0"
  proof (rule bit_eqI)
    fix n
    from a have "\<not> bit (psr AND PSR_IT_MASK 0xff) (n + 25)"
      and "\<not> bit (psr AND PSR_IT_MASK 0xff) (n + 8)"
      by simp_all
    then show "bit (PSR_IT psr) n = bit (0::u32) n"
      by (auto simp add: bit_PSR_IT bit_and_iff bit_PSR_IT_MASK_ff)
  qed
next
  assume a: "PSR_IT psr = 0"
  show "psr AND PSR_IT_MASK 0xff = 0"
  proof (rule bit_eqI)
    fix n
    from a have "\<not> bit (PSR_IT psr) (n - 25)" and "\<not> bit (PSR_IT psr) (n - 8)"
      by simp_all
    then show "bit (psr AND PSR_IT_MASK 0xff) n = bit (0::u32) n"
      by (auto simp add: bit_PSR_IT bit_and_iff bit_PSR_IT_MASK_ff)
  qed
qed

section \<open>Facts about the instruction skip\<close>

lemma HSR_IL_bit: "HSR_IL h \<noteq> 0 \<longleftrightarrow> bit h 25"
  by (simp add: HSR_IL_def and_one_eq bit_iff_odd_drop_bit odd_iff_mod_2_eq_one)


lemma PSR_IT_lt: "bit (PSR_IT psr) n \<Longrightarrow> n < 8"
  by (auto simp add: bit_PSR_IT)

lemma it_step_bits_push:
  assumes "\<And>n. bit it n \<Longrightarrow> n < 8"
  shows "((push_bit 1 it AND mask 5) OR push_bit 5 (drop_bit 5 it)) AND mask 8 =
         push_bit 5 (take_bit 3 (drop_bit 5 it)) OR take_bit 5 (push_bit 1 (take_bit 5 (it::u32)))"
proof (rule bit_eqI)
  fix n
  have "bit it (n - 1) \<Longrightarrow> n - 1 < 8" and "bit it n \<Longrightarrow> n < 8"
    using assms by blast+
  then show "bit ((push_bit 1 it AND mask 5 OR push_bit 5 (drop_bit 5 it)) AND mask 8) n =
      bit (push_bit 5 (take_bit 3 (drop_bit 5 it)) OR take_bit 5 (push_bit 1 (take_bit 5 it))) n"
    by (simp only: bit_and_iff bit_or_iff bit_push_bit_iff bit_take_bit_iff bit_drop_bit_eq
        bit_mask_iff possible_bit_word) auto
qed

lemma it_step_bits:
  assumes "\<And>n. bit it n \<Longrightarrow> n < 8"
  shows "((it * 2 AND 0x1f) OR push_bit 5 (drop_bit 5 it)) AND 0xff =
         push_bit 5 (take_bit 3 (drop_bit 5 it)) OR take_bit 5 (take_bit 5 (it::u32) * 2)"
proof -
  have a: "it * 2 = push_bit 1 it" "take_bit 5 it * 2 = push_bit 1 (take_bit 5 it)"
    by simp_all
  show ?thesis
    unfolding a numeral_1f_mask numeral_ff_mask by (rule it_step_bits_push[OF assms])
qed

lemma advance_IT: "PSR_IT (cpsr (arch_advance_itstate ctx)) = it_advance (PSR_IT (cpsr ctx))"
proof (cases "PSR_IT (cpsr ctx) = 0")
  case True
  then show ?thesis
    by (simp add: arch_advance_itstate_def PSR_IT_zero_iff it_advance_def)
next
  case False
  note nz = this
  show ?thesis
  proof (cases "PSR_IT (cpsr ctx) AND 7 = 0")
    case True
    then have "take_bit 3 (PSR_IT (cpsr ctx)) = 0"
      by (simp add: take_bit_eq_mask numeral_7_mask)
    with True nz show ?thesis
      by (simp add: arch_advance_itstate_def PSR_IT_zero_iff it_advance_def PSR_IT_update)
  next
    case False
    then have "take_bit 3 (PSR_IT (cpsr ctx)) \<noteq> 0"
      by (simp add: take_bit_eq_mask numeral_7_mask)
    with False nz show ?thesis
      by (simp add: arch_advance_itstate_def PSR_IT_zero_iff it_advance_def PSR_IT_update
          it_step_bits[OF PSR_IT_lt] Let_def)
  qed
qed

lemma advance_frame:
  "cpsr (arch_advance_itstate ctx) AND NOT (PSR_IT_MASK 0xff) = cpsr ctx AND NOT (PSR_IT_MASK 0xff)"
  by (simp add: arch_advance_itstate_def Let_def PSR_IT_frame split: prod.splits)

lemma advance_noop: "PSR_IT (cpsr ctx) = 0 \<Longrightarrow> arch_advance_itstate ctx = ctx"
  by (simp add: arch_advance_itstate_def PSR_IT_zero_iff)

lemma advance_others:
  "pc (arch_advance_itstate ctx) = pc ctx"
  "hsr (arch_advance_itstate ctx) = hsr ctx"
  "regs (arch_advance_itstate ctx) = regs ctx"
  by (simp_all add: arch_advance_itstate_def Let_def split: prod.splits)

section \<open>Facts about the condition check\<close>

lemma cc_map_table_list:
  "\<forall>cond\<in>set [0..<16]. \<forall>flags\<in>set [0..<16].
     bit (cc_map ! cond) flags =
       arm_condition cond (bit flags 3) (bit flags 2) (bit flags 1) (bit flags 0)"
  by code_simp

lemma cc_map_table:
  "cond < 16 \<Longrightarrow> flags < 16 \<Longrightarrow>
     bit (cc_map ! cond) flags =
       arm_condition cond (bit flags 3) (bit flags 2) (bit flags 1) (bit flags 0)"
  using cc_map_table_list by simp

lemma class_take: "take_bit 6 (drop_bit 26 h) = HSR_EC (h::u32)"
  unfolding HSR_EC_def
  by (rule bit_eqI) (auto simp add: bit_simps dest: bit_imp_le_length)

lemma class_bits: "HSR_EC h AND 0x30 \<noteq> 0 \<longleftrightarrow> bit (HSR_EC h) 5 \<or> bit (HSR_EC h) 4"
proof -
  have e: "(0x30::u32) = push_bit 5 1 OR push_bit 4 1"
    by simp
  show ?thesis
    unfolding e bit.conj_disj_distrib or_eq_0_iff bit_iff_and_push_bit_not_eq_0 by blast
qed

lemma cv_bit: "HSR_ICC h AND HSR_ICC_CV_BIT \<noteq> 0 \<longleftrightarrow> bit h 24"
proof -
  have e: "(0x1000000::u32) = push_bit 24 1" "(0x1ffffff::u32) = mask 25"
    by (simp_all add: mask_eq_exp_minus_1)
  have "HSR_ICC h AND HSR_ICC_CV_BIT \<noteq> 0 \<longleftrightarrow> bit (HSR_ICC h) 24"
    unfolding HSR_ICC_CV_BIT_def e bit_iff_and_push_bit_not_eq_0 ..
  also have "\<dots> \<longleftrightarrow> bit h 24"
    unfolding HSR_ICC_def e by (simp add: bit_simps)
  finally show ?thesis .
qed

lemma icc_cond: "HSR_ICC_COND (HSR_ICC h) = take_bit 4 (drop_bit 20 h)"
proof -
  have e: "(0x1ffffff::u32) = mask 25" "(0xf::u32) = mask 4"
    by (simp_all add: mask_eq_exp_minus_1)
  show ?thesis
    unfolding HSR_ICC_COND_def HSR_ICC_def e
    by (rule bit_eqI) (auto simp add: bit_simps)
qed


lemma flags_lt: "unat (drop_bit 28 (w::u32)) < 16"
proof -
  have "unat w < 2 ^ 32"
    using unsigned_less[of w] by simp
  then have "unat w div 2 ^ 28 < 16"
    by simp
  moreover have "unat (drop_bit 28 w) = drop_bit 28 (unat w)"
    by (rule unat_drop_bit_eq)
  ultimately show ?thesis
    by (simp only: drop_bit_eq_div)
qed

lemma shift_test:
  assumes "n < 16"
  shows "drop_bit n (ucast (x::u16) :: u32) AND 1 \<noteq> 0 \<longleftrightarrow> bit x n"
proof -
  have "drop_bit n (ucast x :: u32) AND 1 \<noteq> 0 \<longleftrightarrow> odd (drop_bit n (ucast x :: u32))"
    by (simp add: and_one_eq odd_iff_mod_2_eq_one)
  also have "\<dots> \<longleftrightarrow> bit (ucast x :: u32) n"
    by (simp only: bit_iff_odd_drop_bit)
  also have "\<dots> \<longleftrightarrow> bit x n"
    using assms by (simp add: bit_simps)
  finally show ?thesis .
qed

lemma take4_lt: "unat (take_bit 4 (w::u32)) < 16"
proof -
  have "unat (take_bit 4 w) = take_bit 4 (unat w)"
    by (simp add: unsigned_take_bit_eq)
  also have "\<dots> < 2 ^ 4"
    by (rule take_bit_nat_less_exp)
  finally show ?thesis by simp
qed

lemma flag_bits:
  "bit (unat (drop_bit 28 (w::u32))) 3 = bit w 31"
  "bit (unat (drop_bit 28 (w::u32))) 2 = bit w 30"
  "bit (unat (drop_bit 28 (w::u32))) (Suc 0) = bit w 29"
  "bit (unat (drop_bit 28 (w::u32))) 0 = bit w 28"
  by (simp_all add: bit_unsigned_iff bit_simps)


lemma it_cond: "take_bit 4 (drop_bit 4 (PSR_IT psr)) = drop_bit 4 (PSR_IT psr)"
  by (rule bit_eqI) (auto simp add: bit_simps bit_PSR_IT)

lemma cc_lookup:
  assumes "unat c < 16"
  shows "(drop_bit (unat (drop_bit 28 psr)) (ucast (cc_map ! unat c) :: u32) AND 1 \<noteq> 0) =
    arm_condition (unat c) (bit psr 31) (bit psr 30) (bit psr 29) (bit (psr::u32) 28)"
  using cc_map_table[OF assms flags_lt[of psr]]
  by (simp add: shift_test[OF flags_lt] flag_bits)

lemma failed_condition_spec:
  "arch_failed_condition ctx =
    (case applicable_condition ctx of
       None \<Rightarrow> False
     | Some c \<Rightarrow> \<not> arm_condition c (bit (cpsr ctx) 31) (bit (cpsr ctx) 30)
                     (bit (cpsr ctx) 29) (bit (cpsr ctx) 28))"
proof -
  have it: "unat (drop_bit 4 (PSR_IT (cpsr ctx))) < 16"
    using take4_lt[of "drop_bit 4 (PSR_IT (cpsr ctx))"] by (simp only: it_cond)
  show ?thesis
    unfolding arch_failed_condition_def applicable_condition_def Let_def class_take class_bits
      cv_bit icc_cond it_cond
    by (simp add: cc_lookup take4_lt it)
qed


section \<open>Facts about skipping an instruction\<close>

lemma skip_pc: "pc (arch_skip_instruction ctx) = pc ctx + (if bit (hsr ctx) 25 then 4 else 2)"
  by (simp add: arch_skip_instruction_def HSR_IL_bit advance_others)

lemma skip_IT: "PSR_IT (cpsr (arch_skip_instruction ctx)) = it_advance (PSR_IT (cpsr ctx))"
  by (simp add: arch_skip_instruction_def advance_IT)

lemma skip_frame:
  "cpsr (arch_skip_instruction ctx) AND NOT (PSR_IT_MASK 0xff) = cpsr ctx AND NOT (PSR_IT_MASK 0xff)"
  using advance_frame[of "ctx\<lparr>pc := pc ctx + (if HSR_IL (hsr ctx) \<noteq> 0 then 4 else 2)\<rparr>"]
  by (simp add: arch_skip_instruction_def)

lemma skip_others:
  "hsr (arch_skip_instruction ctx) = hsr ctx"
  "regs (arch_skip_instruction ctx) = regs ctx"
  by (simp_all add: arch_skip_instruction_def advance_others)

lemma skip_noop: "PSR_IT (cpsr ctx) = 0 \<Longrightarrow> cpsr (arch_skip_instruction ctx) = cpsr ctx"
  by (simp add: arch_skip_instruction_def advance_noop)

lemma frame_bits:
  assumes "a AND NOT (PSR_IT_MASK 0xff) = b AND NOT (PSR_IT_MASK 0xff)"
    and "n \<notin> {25, 26} \<union> {10..15}"
  shows "bit a n = bit b n"
proof -
  have "bit (a AND NOT (PSR_IT_MASK 0xff)) n = bit (b AND NOT (PSR_IT_MASK 0xff)) n"
    using assms(1) by simp
  with assms(2) show ?thesis
    by (auto simp add: bit_and_iff bit_not_iff bit_PSR_IT_MASK_ff dest: bit_imp_le_length)
qed

lemma layout_bits:
  assumes "n < 8"
  shows "bit psr (if n < 2 then n + 25 else n + 8) = bit (PSR_IT psr) n"
  using assms by (auto simp add: bit_PSR_IT)

section \<open>Claims about the condition check and the instruction skip\<close>

text \<open>
  C5: for all 16 condition codes and all 16 NZCV nibbles (N is bit 3, Z bit 2, C bit 1 and
  V bit 0 of the nibble), bit \<open>flags\<close> of \<open>cc_map[cond]\<close> is the architecture's truth value
  of the condition under the flags; and \<open>arch_failed_condition\<close> is true exactly when a
  condition applies to the trapped instruction and evaluates to false under the guest's
  flags PSR[31:28].
\<close>

theorem cc_map_arm_truth_table:
  "(\<forall>cond<16. \<forall>flags<16.
      bit (cc_map ! cond) flags =
        arm_condition cond (bit flags 3) (bit flags 2) (bit flags 1) (bit flags 0)) \<and>
   arch_failed_condition ctx =
     (case applicable_condition ctx of
        None \<Rightarrow> False
      | Some c \<Rightarrow> \<not> arm_condition c (bit (cpsr ctx) 31) (bit (cpsr ctx) 30)
                      (bit (cpsr ctx) 29) (bit (cpsr ctx) 28))"
  using cc_map_table failed_condition_spec[of ctx] by blast

theorem cc_map_arm_truth_table_witness:
  "bit (cc_map ! 8) (2::nat) \<and> \<not> bit (cc_map ! 8) (6::nat) \<and>
   applicable_condition \<lparr>regs = [], cpsr = 0x00000013, hsr = 0x0F000000, pc = 0x8000\<rparr> = Some 0 \<and>
   arch_failed_condition \<lparr>regs = [], cpsr = 0x00000013, hsr = 0x0F000000, pc = 0x8000\<rparr> \<and>
   \<not> arch_failed_condition \<lparr>regs = [], cpsr = 0x40000013, hsr = 0x0F000000, pc = 0x8000\<rparr>"
  using cc_map_arm_truth_table[of "\<lparr>regs = [], cpsr = 0x00000013, hsr = 0x0F000000, pc = 0x8000\<rparr>"]
    cc_map_arm_truth_table[of "\<lparr>regs = [], cpsr = 0x40000013, hsr = 0x0F000000, pc = 0x8000\<rparr>"]
  by (simp add: cc_map_def arch_failed_condition_def applicable_condition_def HSR_EC_def HSR_ICC_def
      HSR_ICC_CV_BIT_def HSR_ICC_COND_def arm_condition_def)

text \<open>
  C6: \<open>arch_skip_instruction\<close> adds 4 to the (32-bit) PC when the syndrome's IL bit is set
  and 2 otherwise. The IT field of the resulting PSR is the old one advanced by one step
  (\<open>it_advance\<close>), held in the split layout PSR[26:25] = IT[1:0], PSR[15:10] = IT[7:2];
  every other PSR bit is unchanged, and with no IT block active the PSR is unchanged.
  The syndrome and the saved registers are not touched.
\<close>

theorem arch_skip_instruction_pc_itstate:
  "pc (arch_skip_instruction ctx) = pc ctx + (if bit (hsr ctx) 25 then 4 else 2) \<and>
   PSR_IT (cpsr (arch_skip_instruction ctx)) = it_advance (PSR_IT (cpsr ctx)) \<and>
   (\<forall>n<8. bit (cpsr (arch_skip_instruction ctx)) (if n < 2 then n + 25 else n + 8) =
            bit (it_advance (PSR_IT (cpsr ctx))) n) \<and>
   (\<forall>n. n \<notin> {25, 26} \<union> {10..15} \<longrightarrow>
      bit (cpsr (arch_skip_instruction ctx)) n = bit (cpsr ctx) n) \<and>
   (PSR_IT (cpsr ctx) = 0 \<longrightarrow> cpsr (arch_skip_instruction ctx) = cpsr ctx) \<and>
   hsr (arch_skip_instruction ctx) = hsr ctx \<and>
   regs (arch_skip_instruction ctx) = regs ctx"
  using skip_pc[of ctx] skip_IT[of ctx] skip_others[of ctx] skip_noop[of ctx]
    frame_bits[OF skip_frame[of ctx]] layout_bits[of _ "cpsr (arch_skip_instruction ctx)"]
  by simp

theorem arch_skip_instruction_pc_itstate_witness:
  "arch_skip_instruction \<lparr>regs = [], cpsr = 0x2000A830, hsr = 0x0C000000, pc = 0x8000\<rparr> =
     \<lparr>regs = [], cpsr = 0x20000030, hsr = 0x0C000000, pc = 0x8002\<rparr> \<and>
   arch_skip_instruction \<lparr>regs = [], cpsr = 0x04000430, hsr = 0x0E000000, pc = 0x8000\<rparr> =
     \<lparr>regs = [], cpsr = 0x00000C30, hsr = 0x0E000000, pc = 0x8004\<rparr> \<and>
   arch_skip_instruction \<lparr>regs = [], cpsr = 0x60000013, hsr = 0x0E000000, pc = 0xFFFFFFFC\<rparr> =
     \<lparr>regs = [], cpsr = 0x60000013, hsr = 0x0E000000, pc = 0\<rparr>"
  using arch_skip_instruction_pc_itstate[of "\<lparr>regs = [], cpsr = 0x2000A830, hsr = 0x0C000000, pc = 0x8000\<rparr>"]
    arch_skip_instruction_pc_itstate[of "\<lparr>regs = [], cpsr = 0x60000013, hsr = 0x0E000000, pc = 0xFFFFFFFC\<rparr>"]
  by (simp add: arch_skip_instruction_def arch_advance_itstate_def HSR_IL_def PSR_IT_def PSR_IT_MASK_def)

text \<open>
  C7: skipping twice adds 2 * (4 if IL is set, else 2) to the (32-bit) PC and advances
  the IT state by two steps of the rule \<open>it_advance\<close>; the other PSR bits, the syndrome
  (hence IL) and the saved registers are unchanged.
\<close>

theorem arch_skip_instruction_twice:
  "pc (arch_skip_instruction (arch_skip_instruction ctx)) =
     pc ctx + 2 * (if bit (hsr ctx) 25 then 4 else 2) \<and>
   PSR_IT (cpsr (arch_skip_instruction (arch_skip_instruction ctx))) =
     it_advance (it_advance (PSR_IT (cpsr ctx))) \<and>
   (\<forall>n. n \<notin> {25, 26} \<union> {10..15} \<longrightarrow>
      bit (cpsr (arch_skip_instruction (arch_skip_instruction ctx))) n = bit (cpsr ctx) n) \<and>
   hsr (arch_skip_instruction (arch_skip_instruction ctx)) = hsr ctx \<and>
   regs (arch_skip_instruction (arch_skip_instruction ctx)) = regs ctx"
proof -
  let ?c1 = "arch_skip_instruction ctx"
  have "cpsr (arch_skip_instruction ?c1) AND NOT (PSR_IT_MASK 0xff) =
      cpsr ctx AND NOT (PSR_IT_MASK 0xff)"
    by (simp only: skip_frame)
  from frame_bits[OF this] show ?thesis
    by (simp add: skip_pc skip_IT skip_others)
qed

theorem arch_skip_instruction_twice_witness:
  "arch_skip_instruction (arch_skip_instruction
      \<lparr>regs = [], cpsr = 0x04000430, hsr = 0x0E000000, pc = 0x8000\<rparr>) =
     \<lparr>regs = [], cpsr = 0x00001830, hsr = 0x0E000000, pc = 0x8008\<rparr> \<and>
   it_advance (it_advance 0x06) = 0x18"
  using arch_skip_instruction_twice[of "\<lparr>regs = [], cpsr = 0x04000430, hsr = 0x0E000000, pc = 0x8000\<rparr>"]
  by (simp add: arch_skip_instruction_def arch_advance_itstate_def HSR_IL_def PSR_IT_def
      PSR_IT_MASK_def it_advance_def)

section \<open>Facts about guest register access and CP15 emulation\<close>

lemma access_cell_reg_usr_sys_lemma:
  assumes "cpsr ctx AND PSR_MODE_MASK = PSR_USR_MODE \<or> cpsr ctx AND PSR_MODE_MASK = PSR_SYS_MODE"
  shows "access_cell_reg ctx m 14 val True = (ctx, m, regs ctx ! 13)"
    and "access_cell_reg ctx m 14 val False = (ctx\<lparr>regs := (regs ctx)[13 := val]\<rparr>, m, val)"
    and "access_cell_reg ctx m 13 val True = (ctx, m, banked m (SP Usr))"
    and "access_cell_reg ctx m 13 val False = (ctx, m\<lparr>banked := (banked m)(SP Usr := val)\<rparr>, val)"
  using assms
  by (auto simp add: access_cell_reg_def access_usr_reg_def access_banked_reg_def
      arm_read_banked_reg_def arm_write_banked_reg_def Let_def)


lemma numeral_ffc1e: "(0xffc1e::u32) = push_bit 10 (mask 10) OR push_bit 1 (mask 4)"
  by (simp add: mask_eq_exp_minus_1)

lemmas bit_unfold =
  bit_and_iff bit_or_iff bit_not_iff bit_push_bit_iff bit_take_bit_iff bit_drop_bit_eq
  bit_mask_iff possible_bit_word

lemma field_ranges:
  obtains "n = 0" | "1 \<le> n" "n < 5" | "5 \<le> n" "n < 10" | "10 \<le> n" "n < 14"
    | "14 \<le> n" "n < 17" | "17 \<le> n" "n < 20" | "20 \<le> (n::nat)"
  by linarith

lemma bit_pack_fields:
  "bit (pack_fields a b c d) n \<longleftrightarrow>
     n < 32 \<and> ((17 \<le> n \<and> bit d (n - 17)) \<or> (14 \<le> n \<and> bit b (n - 14)) \<or>
       (10 \<le> n \<and> bit a (n - 10)) \<or> (1 \<le> n \<and> bit c (n - 1)))"
  unfolding pack_fields_def
  by (simp only: bit_unfold) auto

lemma bit_and_ffc1e:
  "bit (h AND (0xffc1e::u32)) n \<longleftrightarrow> bit h n \<and> ((10 \<le> n \<and> n < 20) \<or> (1 \<le> n \<and> n < 5))"
  unfolding numeral_ffc1e
  by (simp only: bit_unfold) auto

lemma hsr_fields:
  "h AND 0xffc1e =
     pack_fields (take_bit 4 (drop_bit 10 h)) (take_bit 3 (drop_bit 14 h))
       (take_bit 4 (drop_bit 1 h)) (take_bit 3 (drop_bit 17 (h::u32)))"
proof (rule bit_eqI)
  fix n
  show "bit (h AND 0xffc1e) n =
     bit (pack_fields (take_bit 4 (drop_bit 10 h)) (take_bit 3 (drop_bit 14 h))
       (take_bit 4 (drop_bit 1 h)) (take_bit 3 (drop_bit 17 (h::u32)))) n"
    unfolding bit_and_ffc1e bit_pack_fields bit_take_bit_iff bit_drop_bit_eq
    by (cases n rule: field_ranges) (auto dest: bit_imp_le_length)
qed

lemma unpack_fields:
  assumes "take_bit 4 a = a" "take_bit 3 b = b" "take_bit 4 c = c" "take_bit 3 d = d"
  shows "take_bit 4 (drop_bit 10 (pack_fields a b c d)) = a"
    and "take_bit 3 (drop_bit 14 (pack_fields a b c d)) = b"
    and "take_bit 4 (drop_bit 1 (pack_fields a b c d)) = c"
    and "take_bit 3 (drop_bit 17 (pack_fields a b c d)) = d"
proof -
  have bits: "bit a n \<Longrightarrow> n < 4" "bit b n \<Longrightarrow> n < 3" "bit c n \<Longrightarrow> n < 4" "bit d n \<Longrightarrow> n < 3" for n
    using assms by (metis bit_take_bit_iff)+
  show "take_bit 4 (drop_bit 10 (pack_fields a b c d)) = a"
  proof (rule bit_eqI)
    fix n
    show "bit (take_bit 4 (drop_bit 10 (pack_fields a b c d))) n = bit a n"
      unfolding bit_take_bit_iff bit_drop_bit_eq bit_pack_fields
      using bits[of "n"] bits[of "n + 10 - 14"] bits[of "n + 10 - 17"] bits[of "n + 10 - 1"]
      by (cases n rule: field_ranges) (auto dest: bit_imp_le_length)
  qed
  show "take_bit 3 (drop_bit 14 (pack_fields a b c d)) = b"
  proof (rule bit_eqI)
    fix n
    show "bit (take_bit 3 (drop_bit 14 (pack_fields a b c d))) n = bit b n"
      unfolding bit_take_bit_iff bit_drop_bit_eq bit_pack_fields
      using bits[of "n"] bits[of "n + 14 - 10"] bits[of "n + 14 - 17"] bits[of "n + 14 - 1"]
      by (cases n rule: field_ranges) (auto dest: bit_imp_le_length)
  qed
  show "take_bit 4 (drop_bit 1 (pack_fields a b c d)) = c"
  proof (rule bit_eqI)
    fix n
    show "bit (take_bit 4 (drop_bit 1 (pack_fields a b c d))) n = bit c n"
      unfolding bit_take_bit_iff bit_drop_bit_eq bit_pack_fields
      using bits[of "n"] bits[of "n + 1 - 10"] bits[of "n + 1 - 17"] bits[of "n + 1 - 14"]
      by (cases n rule: field_ranges) (auto dest: bit_imp_le_length)
  qed
  show "take_bit 3 (drop_bit 17 (pack_fields a b c d)) = d"
  proof (rule bit_eqI)
    fix n
    show "bit (take_bit 3 (drop_bit 17 (pack_fields a b c d))) n = bit d n"
      unfolding bit_take_bit_iff bit_drop_bit_eq bit_pack_fields
      using bits[of "n"] bits[of "n + 17 - 10"] bits[of "n + 17 - 1"] bits[of "n + 17 - 14"]
      by (cases n rule: field_ranges) (auto dest: bit_imp_le_length)
  qed
qed

lemma take_bit_of_nat_small:
  "n < 2 ^ k \<Longrightarrow> take_bit k (of_nat n :: u32) = of_nat n"
  by (simp add: take_bit_of_nat take_bit_nat_eq_self)

lemma unat_eq_of_nat_iff:
  assumes "n < 2 ^ 32"
  shows "unat (w::u32) = n \<longleftrightarrow> w = of_nat n"
proof
  assume "unat w = n"
  then have "of_nat (unat w) = (of_nat n :: u32)" by simp
  then show "w = of_nat n" by (simp only: of_nat_unat ucast_id)
next
  assume "w = of_nat n"
  then show "unat w = n"
    using assms by (simp add: unat_of_nat)
qed

lemma match_iff:
  assumes "crn < 16" "opc1 < 8" "crm < 16" "opc2 < 8"
  shows "HSR_MATCH_MCR_MRC h crn opc1 crm opc2 \<longleftrightarrow> cp15_tuple h = (crn, opc1, crm, opc2)"
proof -
  let ?a = "of_nat crn :: u32" and ?b = "of_nat opc1 :: u32"
    and ?c = "of_nat crm :: u32" and ?d = "of_nat opc2 :: u32"
  let ?fa = "take_bit 4 (drop_bit 10 h)" and ?fb = "take_bit 3 (drop_bit 14 h)"
    and ?fc = "take_bit 4 (drop_bit 1 h)" and ?fd = "take_bit 3 (drop_bit 17 h)"
  have small: "take_bit 4 ?a = ?a" "take_bit 3 ?b = ?b" "take_bit 4 ?c = ?c" "take_bit 3 ?d = ?d"
    using assms by (simp_all add: take_bit_of_nat_small)
  have fsmall: "take_bit 4 ?fa = ?fa" "take_bit 3 ?fb = ?fb" "take_bit 4 ?fc = ?fc"
    "take_bit 3 ?fd = ?fd"
    by simp_all
  have "HSR_MATCH_MCR_MRC h crn opc1 crm opc2 \<longleftrightarrow>
      pack_fields ?fa ?fb ?fc ?fd = pack_fields ?a ?b ?c ?d"
    by (simp only: HSR_MATCH_MCR_MRC_def hsr_fields pack_fields_def)
  also have "\<dots> \<longleftrightarrow> ?fa = ?a \<and> ?fb = ?b \<and> ?fc = ?c \<and> ?fd = ?d"
    (is "?L = ?R")
  proof
    assume l: ?L
    have "?fa = take_bit 4 (drop_bit 10 (pack_fields ?fa ?fb ?fc ?fd))"
      by (rule unpack_fields(1)[OF fsmall, symmetric])
    also have "\<dots> = ?a"
      unfolding l by (rule unpack_fields(1)[OF small])
    finally have 1: "?fa = ?a" .
    have "?fb = take_bit 3 (drop_bit 14 (pack_fields ?fa ?fb ?fc ?fd))"
      by (rule unpack_fields(2)[OF fsmall, symmetric])
    also have "\<dots> = ?b"
      unfolding l by (rule unpack_fields(2)[OF small])
    finally have 2: "?fb = ?b" .
    have "?fc = take_bit 4 (drop_bit 1 (pack_fields ?fa ?fb ?fc ?fd))"
      by (rule unpack_fields(3)[OF fsmall, symmetric])
    also have "\<dots> = ?c"
      unfolding l by (rule unpack_fields(3)[OF small])
    finally have 3: "?fc = ?c" .
    have "?fd = take_bit 3 (drop_bit 17 (pack_fields ?fa ?fb ?fc ?fd))"
      by (rule unpack_fields(4)[OF fsmall, symmetric])
    also have "\<dots> = ?d"
      unfolding l by (rule unpack_fields(4)[OF small])
    finally have 4: "?fd = ?d" .
    from 1 2 3 4 show ?R by blast
  next
    assume ?R
    then show ?L by simp
  qed
  also have "\<dots> \<longleftrightarrow> cp15_tuple h = (crn, opc1, crm, opc2)"
    using assms by (simp add: cp15_tuple_def unat_eq_of_nat_iff)
  finally show ?thesis .
qed

lemma perform_write_chain_spec:
  assumes "\<forall>t\<in>set ts. case t of (crn, opc1, crm, opc2) \<Rightarrow> crn < 16 \<and> opc1 < 8 \<and> crm < 16 \<and> opc2 < 8"
  shows "perform_write_chain h v m ts =
    (if cp15_tuple h \<in> set ts
     then (True, case cp15_tuple h of (crn, opc1, crm, opc2) \<Rightarrow> arm_write_sysreg_32 opc1 crn crm opc2 v m)
     else (False, m))"
  using assms
proof (induction ts)
  case Nil
  then show ?case by simp
next
  case (Cons t ts)
  obtain crn opc1 crm opc2 where t: "t = (crn, opc1, crm, opc2)"
    by (cases t) auto
  from Cons.prems t have "crn < 16" "opc1 < 8" "crm < 16" "opc2 < 8"
    by auto
  note m = match_iff[OF this, of h]
  from Cons show ?case
    by (auto simp add: t CP15_32_PERFORM_WRITE_def m)
qed

lemma chain_valid:
  "\<forall>t\<in>set cp15_32_write_chain. case t of (crn, opc1, crm, opc2) \<Rightarrow> crn < 16 \<and> opc1 < 8 \<and> crm < 16 \<and> opc2 < 8"
  by (simp add: cp15_32_write_chain_def)

lemma allow_list_chain: "set cp15_write_allow_list = insert (1, 0, 0, 0) (set cp15_32_write_chain)"
  by (simp add: cp15_write_allow_list_def cp15_32_write_chain_def)

lemma access_cell_reg_read_frame:
  "fst (access_cell_reg ctx m r v True) = ctx"
  "sysregs (fst (snd (access_cell_reg ctx m r v True))) = sysregs m"
  "sysreg_writes (fst (snd (access_cell_reg ctx m r v True))) = sysreg_writes m"
  "banked (fst (snd (access_cell_reg ctx m r v True))) = banked m"
  by (simp_all add: access_cell_reg_def access_usr_reg_def access_fiq_reg_def
      access_banked_reg_def printk_def Let_def)

lemma read_bit: "(h AND 1 = 0) = cp15_is_write (h::u32)"
  by (simp add: cp15_is_write_def and_one_eq bit_0 even_iff_mod_2_eq_zero)

lemma actlr_not_listed: "cp15_ACTLR \<notin> set cp15_write_allow_list"
  by (simp add: cp15_ACTLR_def cp15_write_allow_list_def)

lemma sctlr_not_chain: "(1, 0, 0, 0) \<notin> set cp15_32_write_chain"
  by (simp add: cp15_32_write_chain_def)

lemma handle_cp15_32_write:
  fixes ctx :: trap_context and m :: machine and val0 :: u32
  assumes w: "cp15_is_write (hsr ctx)"
  defines "t \<equiv> cp15_tuple (hsr ctx)"
    and "rd \<equiv> access_cell_reg ctx m (unat (drop_bit 5 (hsr ctx) AND 0xf)) val0 True"
  shows "arch_handle_cp15_32 ctx m val0 =
    (if t = cp15_ACTLR then (TRAP_HANDLED, arch_skip_instruction ctx, fst (snd rd))
     else if t \<in> set cp15_write_allow_list then
       (TRAP_HANDLED, arch_skip_instruction ctx,
        arm_write_sysreg (cp15_written_reg t) (ucast (snd (snd rd))) (fst (snd rd)))
     else (TRAP_UNHANDLED, ctx, fst (snd rd)))"
proof -
  obtain c1 m1 v1 where rd: "rd = (c1, m1, v1)"
    by (cases rd) auto
  have c1: "c1 = ctx"
    using access_cell_reg_read_frame(1)[of ctx m "unat (drop_bit 5 (hsr ctx) AND 0xf)" val0] rd
    by (simp add: rd_def)
  have actlr: "HSR_MATCH_MCR_MRC (hsr ctx) 1 0 0 1 \<longleftrightarrow> t = cp15_ACTLR"
    by (simp add: match_iff t_def cp15_ACTLR_def)
  have sctlr: "HSR_MATCH_MCR_MRC (hsr ctx) 1 0 0 0 \<longleftrightarrow> t = (1, 0, 0, 0)"
    by (simp add: match_iff t_def)
  have rb: "hsr ctx AND 1 = 0"
    using w by (simp add: read_bit)
  show ?thesis
  proof (cases "t = cp15_ACTLR")
    case True
    then show ?thesis
      using rd[unfolded rd_def] c1 rb actlr
      by (simp add: arch_handle_cp15_32_def Let_def rd)
  next
    case False
    note na = this
    show ?thesis
    proof (cases "t = (1, 0, 0, 0)")
      case True
      then show ?thesis
        using rd[unfolded rd_def] c1 rb actlr sctlr na
        by (simp add: arch_handle_cp15_32_def Let_def cp15_written_reg_def
            cp15_write_allow_list_def rd)
    next
      case False
      obtain crn opc1 crm opc2 where tt: "t = (crn, opc1, crm, opc2)"
        by (cases t) auto
      from False tt have wr: "cp15_written_reg t = CP15_32 opc1 crn crm opc2"
        by (simp add: cp15_written_reg_def)
      from False have mem: "t \<in> set cp15_write_allow_list \<longleftrightarrow> t \<in> set cp15_32_write_chain"
        by (simp add: allow_list_chain)
      show ?thesis
        using rd[unfolded rd_def] c1 rb actlr sctlr na False mem wr tt
        by (auto simp add: arch_handle_cp15_32_def Let_def perform_write_chain_spec[OF chain_valid]
            rd arm_write_sysreg_32_def simp flip: t_def)
    qed
  qed
qed

lemma sysreg_frame_read:
  "sysreg_writes (fst (snd (access_cell_reg ctx m r v True))) = sysreg_writes m \<and>
   sysregs (fst (snd (access_cell_reg ctx m r v True))) = sysregs m"
  by (simp add: access_cell_reg_read_frame)


section \<open>Claims about guest register access and CP15 emulation\<close>

text \<open>
  C1, as the code has it: for a trapped CP15 32-bit write, (i) when the tuple (CRn, op1, CRm,
  op2) is neither on the allow-list nor ACTLR, \<open>arch_handle_cp15_32\<close> returns UNHANDLED,
  leaves the trap context as it was and writes no system register; (ii) a write to ACTLR
  (1, 0, 0, 1) is accepted and ignored: the handler returns HANDLED and skips the
  instruction, and writes no system register; (iii) a write to a register of the
  allow-list returns HANDLED, skips the instruction, and the one system register written
  is the register of the tuple, with the value of the guest's register Rt.
\<close>

theorem arch_handle_cp15_32_write_allow_list:
  "cp15_is_write (hsr ctx) \<Longrightarrow>
     (case arch_handle_cp15_32 ctx m val0 of (ret, ctx', m') \<Rightarrow>
        (cp15_tuple (hsr ctx) \<notin> set cp15_write_allow_list \<and> cp15_tuple (hsr ctx) \<noteq> cp15_ACTLR \<longrightarrow>
           ret = TRAP_UNHANDLED \<and> ctx' = ctx \<and>
           sysreg_writes m' = sysreg_writes m \<and> sysregs m' = sysregs m) \<and>
        (cp15_tuple (hsr ctx) = cp15_ACTLR \<longrightarrow>
           ret = TRAP_HANDLED \<and> ctx' = arch_skip_instruction ctx \<and>
           sysreg_writes m' = sysreg_writes m \<and> sysregs m' = sysregs m) \<and>
        (cp15_tuple (hsr ctx) \<in> set cp15_write_allow_list \<longrightarrow>
           ret = TRAP_HANDLED \<and> ctx' = arch_skip_instruction ctx \<and>
           sysreg_writes m' = sysreg_writes m @
             [(cp15_written_reg (cp15_tuple (hsr ctx)),
               ucast (snd (snd (access_cell_reg ctx m (unat (drop_bit 5 (hsr ctx) AND 0xf)) val0 True))))]))"
  using actlr_not_listed
  by (simp add: handle_cp15_32_write sysreg_frame_read arm_write_sysreg_def)

theorem arch_handle_cp15_32_write_allow_list_witness:
  "cp15_is_write (hsr usr_ctx) \<and>
   arch_handle_cp15_32 usr_ctx zero_machine 0 =
     (TRAP_HANDLED, usr_ctx\<lparr>pc := 0x8004\<rparr>, zero_machine) \<and>
   arch_handle_cp15_32 (usr_ctx\<lparr>hsr := 0x0E000840\<rparr>) zero_machine 0 =
     (TRAP_HANDLED, usr_ctx\<lparr>hsr := 0x0E000840, pc := 0x8004\<rparr>,
      zero_machine\<lparr>sysregs := (sysregs zero_machine)(CP15_32 0 2 0 0 := 0x102),
                   sysreg_writes := [(CP15_32 0 2 0 0, 0x102)]\<rparr>) \<and>
   arch_handle_cp15_32 (usr_ctx\<lparr>hsr := 0x0E002458\<rparr>) zero_machine 0 =
     (TRAP_UNHANDLED, usr_ctx\<lparr>hsr := 0x0E002458\<rparr>, zero_machine)"
  using arch_handle_cp15_32_write_allow_list[of usr_ctx zero_machine 0]
    arch_handle_cp15_32_write_allow_list[of "usr_ctx\<lparr>hsr := 0x0E000840\<rparr>" zero_machine 0]
    arch_handle_cp15_32_write_allow_list[of "usr_ctx\<lparr>hsr := 0x0E002458\<rparr>" zero_machine 0]
  by (simp add: usr_ctx_def zero_machine_def cp15_is_write_def arch_handle_cp15_32_def
      HSR_MATCH_MCR_MRC_def access_cell_reg_def access_usr_reg_def Let_def
      cp15_32_write_chain_def CP15_32_PERFORM_WRITE_def arm_write_sysreg_32_def
      arm_write_sysreg_def arch_skip_instruction_def arch_advance_itstate_def HSR_IL_def
      PSR_IT_MASK_def)

text \<open>
  C1 as stated fails: a write to ACTLR, which is not on the allow-list, is accepted as
  HANDLED (and ignored), not rejected as UNHANDLED.
\<close>

theorem arch_handle_cp15_32_actlr_counterexample:
  "cp15_is_write (hsr usr_ctx) \<and>
   cp15_tuple (hsr usr_ctx) = (1, 0, 0, 1) \<and>
   cp15_tuple (hsr usr_ctx) \<notin> set cp15_write_allow_list \<and>
   fst (arch_handle_cp15_32 usr_ctx zero_machine 0) = TRAP_HANDLED \<and>
   fst (arch_handle_cp15_32 usr_ctx zero_machine 0) \<noteq> TRAP_UNHANDLED"
  by (simp add: usr_ctx_def zero_machine_def cp15_is_write_def arch_handle_cp15_32_def
      HSR_MATCH_MCR_MRC_def access_cell_reg_def access_usr_reg_def Let_def
      cp15_tuple_def cp15_write_allow_list_def split: prod.splits)

text \<open>
  C2, as the code has it: in USR or SYS mode, an access to r14 (LR) reads or writes the
  on-stack user register save area at offset 13 (the array holds r0-r12 and lr, the SP
  being banked), and an access to r13 (SP) reads or writes the banked SP of the usr bank.
\<close>

theorem access_cell_reg_usr_sys:
  "cpsr ctx AND PSR_MODE_MASK = PSR_USR_MODE \<or> cpsr ctx AND PSR_MODE_MASK = PSR_SYS_MODE \<Longrightarrow>
   access_cell_reg ctx m 14 val True = (ctx, m, regs ctx ! 13) \<and>
   access_cell_reg ctx m 14 val False = (ctx\<lparr>regs := (regs ctx)[13 := val]\<rparr>, m, val) \<and>
   access_cell_reg ctx m 13 val True = (ctx, m, banked m (SP Usr)) \<and>
   access_cell_reg ctx m 13 val False = (ctx, m\<lparr>banked := (banked m)(SP Usr := val)\<rparr>, val)"
  by (simp add: access_cell_reg_usr_sys_lemma)

theorem access_cell_reg_usr_sys_witness:
  "cpsr usr_ctx AND PSR_MODE_MASK = PSR_USR_MODE \<and>
   access_cell_reg usr_ctx zero_machine 14 0 True = (usr_ctx, zero_machine, 0x10d) \<and>
   regs (fst (access_cell_reg usr_ctx zero_machine 14 0xAA False)) =
     [0x100, 0x101, 0x102, 0x103, 0x104, 0x105, 0x106, 0x107, 0x108, 0x109, 0x10a, 0x10b,
      0x10c, 0xAA] \<and>
   access_cell_reg (usr_ctx\<lparr>cpsr := 0x6000001f\<rparr>) zero_machine 13 0 True =
     (usr_ctx\<lparr>cpsr := 0x6000001f\<rparr>, zero_machine, 0) \<and>
   banked (fst (snd (access_cell_reg usr_ctx zero_machine 13 0xBB False))) (SP Usr) = 0xBB"
  using access_cell_reg_usr_sys[of usr_ctx zero_machine 0]
    access_cell_reg_usr_sys[of usr_ctx zero_machine "0xAA"]
    access_cell_reg_usr_sys[of usr_ctx zero_machine "0xBB"]
    access_cell_reg_usr_sys[of "usr_ctx\<lparr>cpsr := 0x6000001f\<rparr>" zero_machine 0]
  by (simp add: usr_ctx_def zero_machine_def PSR_MODE_MASK_def PSR_USR_MODE_def PSR_SYS_MODE_def)

text \<open>
  C2 as stated fails: the save area has 14 entries, the LR is read and written at offset
  13, and offset 14 is not touched.
\<close>

theorem access_cell_reg_lr_offset_14_counterexample:
  "length (regs usr_ctx) = 14 \<and>
   cpsr usr_ctx AND PSR_MODE_MASK = PSR_USR_MODE \<and>
   access_cell_reg usr_ctx zero_machine 14 0 True = (usr_ctx, zero_machine, 0x10d) \<and>
   regs usr_ctx ! 13 = 0x10d \<and>
   regs (fst (access_cell_reg usr_ctx zero_machine 14 0xAA False)) = (regs usr_ctx)[13 := 0xAA] \<and>
   regs (fst (access_cell_reg usr_ctx zero_machine 14 0xAA False)) \<noteq> (regs usr_ctx)[14 := 0xAA]"
  by (simp add: usr_ctx_def access_cell_reg_def access_usr_reg_def PSR_MODE_MASK_def
      PSR_USR_MODE_def PSR_SYS_MODE_def Let_def)

section \<open>Facts about the per-CPU state, PSCI and cell creation\<close>

lemma emit_simps [simp]:
  "events (emit e w) = events w @ [e]"
  "percpu (emit e w) = percpu w"
  "cells (emit e w) = cells w"
  "hw (emit e w) = hw w"
  "consts_of (emit e w) = consts_of w"
  by (simp_all add: emit_def)

lemma pc_write_simps [simp]:
  "events (pc_write c st w) = events w @ [Store c st]"
  "percpu (pc_write c st w) = (percpu w)(c := apply_store st (percpu w c))"
  "cells (pc_write c st w) = cells w"
  "hw (pc_write c st w) = hw w"
  "consts_of (pc_write c st w) = consts_of w"
  by (simp_all add: pc_write_def)

lemma spin_simps [simp]:
  "events (spin_lock c w) = events w @ [SpinLock c]"
  "percpu (spin_lock c w) = percpu w"
  "cells (spin_lock c w) = cells w"
  "hw (spin_lock c w) = hw w"
  "consts_of (spin_lock c w) = consts_of w"
  "events (spin_unlock c w) = events w @ [SpinUnlock c]"
  "percpu (spin_unlock c w) = percpu w"
  "cells (spin_unlock c w) = cells w"
  "hw (spin_unlock c w) = hw w"
  "consts_of (spin_unlock c w) = consts_of w"
  by (simp_all add: spin_lock_def spin_unlock_def)

lemma on_hw_simps [simp]:
  "events (on_hw f w) = events w"
  "percpu (on_hw f w) = percpu w"
  "cells (on_hw f w) = cells w"
  "hw (on_hw f w) = f (hw w)"
  "consts_of (on_hw f w) = consts_of w"
  by (simp_all add: on_hw_def)

lemma kick_simps [simp]:
  "events (arm_cpu_kick c w) = events w @
     [SendSgi \<lparr>routing_mode = 0, aff1 = 0, aff2 = 0, aff3 = 0, targets = push_bit c 1,
               sgi_ident = SGI_EVENT\<rparr>]"
  "percpu (arm_cpu_kick c w) = percpu w"
  "cells (arm_cpu_kick c w) = cells w"
  "hw (arm_cpu_kick c w) = hw w"
  "consts_of (arm_cpu_kick c w) = consts_of w"
  by (simp_all add: arm_cpu_kick_def)

lemma world_eqI:
  "events a = events b \<Longrightarrow> percpu a = percpu b \<Longrightarrow> cells a = cells b \<Longrightarrow> hw a = hw b \<Longrightarrow>
   consts_of a = consts_of b \<Longrightarrow> (a::world) = b"
  by simp

lemma cpu_on_denied:
  "arm_cpu_by_mpidr w (cell_ptr (percpu w this)) (regs ctx ! 1) = None \<Longrightarrow>
     psci_emulate_cpu_on this ctx w = (PSCI_DENIED, w)"
  by (simp add: psci_emulate_cpu_on_def)

lemma cpu_on_already_on:
  assumes "arm_cpu_by_mpidr w (cell_ptr (percpu w this)) (regs ctx ! 1) = Some t"
    and "\<not> wait_for_poweron (percpu w t)"
  shows "fst (psci_emulate_cpu_on this ctx w) = PSCI_ALREADY_ON"
    and "percpu (snd (psci_emulate_cpu_on this ctx w)) = percpu w"
    and "events (snd (psci_emulate_cpu_on this ctx w)) = events w @ [SpinLock t, SpinUnlock t]"
    and "cells (snd (psci_emulate_cpu_on this ctx w)) = cells w"
    and "hw (snd (psci_emulate_cpu_on this ctx w)) = hw w"
  using assms by (simp_all add: psci_emulate_cpu_on_def Let_def)

lemma cpu_on_success:
  assumes "arm_cpu_by_mpidr w (cell_ptr (percpu w this)) (regs ctx ! 1) = Some t"
    and "wait_for_poweron (percpu w t)"
  shows "fst (psci_emulate_cpu_on this ctx w) = PSCI_SUCCESS"
    and "percpu (snd (psci_emulate_cpu_on this ctx w)) =
      (percpu w)(t := (percpu w t)\<lparr>cpu_on_entry := regs ctx ! 2, cpu_on_context := regs ctx ! 3,
                                   reset := True\<rparr>)"
    and "events (snd (psci_emulate_cpu_on this ctx w)) = events w @
      [SpinLock t, Store t (Set_cpu_on_entry (regs ctx ! 2)),
       Store t (Set_cpu_on_context (regs ctx ! 3)), Store t (Set_reset True), SpinUnlock t,
       SendSgi \<lparr>routing_mode = 0, aff1 = 0, aff2 = 0, aff3 = 0, targets = push_bit t 1,
                sgi_ident = SGI_EVENT\<rparr>]"
    and "cells (snd (psci_emulate_cpu_on this ctx w)) = cells w"
    and "hw (snd (psci_emulate_cpu_on this ctx w)) = hw w"
  using assms by (simp_all add: psci_emulate_cpu_on_def Let_def)

lemma find_SomeD: "find P xs = Some x \<Longrightarrow> P x \<and> x \<in> set xs"
  by (induction xs) (auto split: if_splits)

lemma set_cpus_of: "set (cpus_of s) = {c. c \<le> max_cpu_id s \<and> bitmap s c}"
  by (auto simp add: cpus_of_def less_Suc_eq_le simp del: upt_Suc)

lemma by_mpidr_Some:
  assumes "arm_cpu_by_mpidr w c mpidr = Some t"
  shows "t \<in> set (cpus_of (cell_cpu_set (cells w c)))"
    and "virt_id (percpu w t) = mpidr AND MPIDR_CPUID_MASK (consts_of w)"
  using find_SomeD[OF assms[unfolded arm_cpu_by_mpidr_def arm_cpu_virt2phys_def]]
  by simp_all

lemma by_mpidr_None:
  "arm_cpu_by_mpidr w c mpidr = None \<longleftrightarrow>
     (\<forall>t\<in>set (cpus_of (cell_cpu_set (cells w c))).
        virt_id (percpu w t) \<noteq> mpidr AND MPIDR_CPUID_MASK (consts_of w))"
  by (auto simp add: arm_cpu_by_mpidr_def arm_cpu_virt2phys_def find_None_iff)

lemma stats_apply_store:
  "stats (apply_store st p) = (case st of Set_stat s v \<Rightarrow> (stats p)(s := v) | _ \<Rightarrow> stats p)"
  by (cases st) simp_all

lemma fold_banked_frame [simp]:
  "sysregs (fold (\<lambda>r. arm_write_banked_reg r v) rs m) = sysregs m"
  by (induction rs arbitrary: m) (simp_all add: arm_write_banked_reg_def)

lemma cpu_reset_stats [simp]:
  "stats (percpu (cpu_reset this w) c) = stats (percpu w c)"
  by (simp add: cpu_reset_def Let_def)

lemma cpu_reset_events:
  "events (cpu_reset this w) = events w @
     [Store this (Set_guest_regs \<lparr>exit_reason = 0, usr = replicate 14 0\<rparr>),
      Store this (Set_guest_usr 1 (cpu_on_context (percpu w this))),
      PagingVcpuInit (Cell_mm (cell_ptr (percpu w this))), IrqchipCpuReset this]"
  by (simp add: cpu_reset_def Let_def)

lemma arm_cpu_park_stats [simp]:
  "stats (percpu (arm_cpu_park this w) c) = stats (percpu w c)"
  by (simp add: arm_cpu_park_def enter_cpu_off_def Let_def)

lemma arm_cpu_park_events:
  "filter is_stat_store (events (arm_cpu_park this w)) = filter is_stat_store (events w)"
  by (simp add: arm_cpu_park_def enter_cpu_off_def Let_def cpu_reset_events)

lemma cpu_on_stats [simp]:
  "stats (percpu (snd (psci_emulate_cpu_on this ctx w)) c) = stats (percpu w c)"
  by (simp add: psci_emulate_cpu_on_def Let_def split: option.splits)

lemma cpu_on_stat_events:
  "filter is_stat_store (events (snd (psci_emulate_cpu_on this ctx w))) =
     filter is_stat_store (events w)"
  by (simp add: psci_emulate_cpu_on_def Let_def split: option.splits)

lemma affinity_info_world [simp]:
  "snd (psci_emulate_affinity_info this ctx w) = w"
  by (simp add: psci_emulate_affinity_info_def split: option.splits)

lemma psci_dispatch_stat:
  "stats (percpu (snd (psci_dispatch this ctx w)) c) =
     (if c = this
      then (stats (percpu w this))(VMEXITS_PSCI := stats (percpu w this) VMEXITS_PSCI + 1)
      else stats (percpu w c))"
  by (simp add: psci_dispatch_def Let_def)

lemma psci_dispatch_stat_events:
  "filter is_stat_store (events (snd (psci_dispatch this ctx w))) =
     filter is_stat_store (events w) @
       [Store this (Set_stat VMEXITS_PSCI (stats (percpu w this) VMEXITS_PSCI + 1))]"
  by (simp add: psci_dispatch_def Let_def arm_cpu_park_events cpu_on_stat_events)

lemma psci_dispatch_unknown:
  assumes "regs ctx ! 0 \<notin> {PSCI_VERSION, PSCI_CPU_OFF, PSCI_CPU_OFF_V0_1_UBOOT, PSCI_CPU_ON_32,
     PSCI_CPU_ON_V0_1_UBOOT, PSCI_AFFINITY_INFO_32}"
  shows "fst (psci_dispatch this ctx w) = PSCI_NOT_SUPPORTED"
  using assms by (simp add: psci_dispatch_def Let_def)

lemma example_cpus: "cpus_of (cell_cpu_set (example_cells 1)) = [3, 5]"
  by code_simp

lemma example_mpidr:
  "arm_cpu_by_mpidr example_world (cell_ptr (percpu example_world 3)) (regs cpu_on_ctx ! 1) = Some 5"
  "arm_cpu_by_mpidr example_world (cell_ptr (percpu example_world 3))
     (regs (cpu_on_ctx\<lparr>regs := (regs cpu_on_ctx)[1 := 0]\<rparr>) ! 1) = Some 3"
  "arm_cpu_by_mpidr example_world (cell_ptr (percpu example_world 3))
     (regs (cpu_on_ctx\<lparr>regs := (regs cpu_on_ctx)[1 := 4]\<rparr>) ! 1) = None"
  by code_simp+


lemma assign_virt_ids_frame:
  "cells (snd (assign_virt_ids cpus v w)) = cells w"
  "hw (snd (assign_virt_ids cpus v w)) = hw w"
  "consts_of (snd (assign_virt_ids cpus v w)) = consts_of w"
  "c \<notin> set cpus \<Longrightarrow> percpu (snd (assign_virt_ids cpus v w)) c = percpu w c"
  by (induction cpus arbitrary: v w) (simp_all add: Let_def)

lemma assign_virt_ids_count:
  "fst (assign_virt_ids cpus v w) = v + of_nat (length cpus)"
  by (induction cpus arbitrary: v w) (simp_all add: Let_def)

lemma assign_virt_ids_nth:
  assumes "distinct cpus" and "i < length cpus"
  shows "virt_id (percpu (snd (assign_virt_ids cpus v w)) (cpus ! i)) = v + of_nat i"
    and "cpu_on_entry (percpu (snd (assign_virt_ids cpus v w)) (cpus ! i)) =
           (if v + of_nat i = 0 then 0 else PSCI_INVALID_ADDRESS)"
  using assms
proof (induction cpus arbitrary: v w i)
  case Nil
  case 1 then show ?case by simp
  case 2 then show ?case by simp
next
  case (Cons c cs)
  case 1
  then show ?case
    using Cons.IH(1)[of "i - 1" "v + 1"]
    by (cases i) (simp_all add: Let_def assign_virt_ids_frame)
  case 2
  then show ?case
    using Cons.IH(2)[of "i - 1" "v + 1"]
    by (cases i) (simp_all add: Let_def assign_virt_ids_frame add.assoc)
qed

lemma distinct_cpus_of: "distinct (cpus_of s)"
  by (simp add: cpus_of_def del: upt_Suc)

lemma length_cpus_of: "length (cpus_of s) \<le> Suc (max_cpu_id s)"
  using length_filter_le[of "bitmap s" "[0..<Suc (max_cpu_id s)]"]
  by (simp add: cpus_of_def del: upt_Suc)

lemma arch_cell_create_paging_failure:
  "paging_err \<noteq> 0 \<Longrightarrow>
     arch_cell_create c paging_err irqchip_err w = (paging_err, emit (PagingCellInit c) w)"
  by (simp add: arch_cell_create_def Let_def)

lemma arch_cell_create_percpu:
  assumes "paging_err = 0"
  shows "percpu (snd (arch_cell_create c paging_err irqchip_err w)) =
     percpu (snd (assign_virt_ids (cpus_of (cell_cpu_set (cells w c))) 0 (emit (PagingCellInit c) w)))"
    and "last_virt_id (cells (snd (arch_cell_create c paging_err irqchip_err w)) c) =
     of_nat (length (cpus_of (cell_cpu_set (cells w c)))) - 1"
    and "fst (arch_cell_create c paging_err irqchip_err w) = irqchip_err"
    and "irqchip_err \<noteq> 0 \<Longrightarrow> \<exists>pre. events (snd (arch_cell_create c paging_err irqchip_err w)) =
           pre @ [IrqchipCellInit c, PagingCellDestroy c]"
    and "irqchip_err = 0 \<Longrightarrow> \<exists>pre. events (snd (arch_cell_create c paging_err irqchip_err w)) =
           pre @ [IrqchipCellInit c, SmpCellInit c]"
  using assms
  by (simp_all add: arch_cell_create_def Let_def case_prod_beta assign_virt_ids_frame
      assign_virt_ids_count)

lemma unat_of_nat_u32: "i < 2 ^ 32 \<Longrightarrow> unat (of_nat i :: u32) = i"
  by (simp add: unat_of_nat)


lemma root_cpus: "cpus_of (cell_cpu_set (cells root_world 1)) = [3, 5]"
  by code_simp


section \<open>Claims about PSCI and cell creation\<close>

text \<open>
  C3: \<open>psci_emulate_cpu_on\<close>, for every calling CPU, context and state. If the MPIDR
  argument (r1) does not translate to a CPU of the calling cell, the result is DENIED and
  the state is unchanged. Otherwise the target \<open>t\<close> is a CPU of the calling cell's set, and:
  if its \<open>wait_for_poweron\<close> flag is false the result is ALREADY_ON, no per-CPU data
  changes and the only events are the lock and unlock of the target's control lock; else
  the result is SUCCESS, \<open>cpu_on_entry\<close> is the entry argument (r2), \<open>cpu_on_context\<close> the
  context argument (r3) and \<open>reset\<close> is true, nothing else changes, and the events are, in
  this order: lock of the target, the three stores, unlock of the target, and then the
  SGI \<open>SGI_EVENT\<close> to the target.
\<close>

theorem psci_emulate_cpu_on_spec:
  "(arm_cpu_by_mpidr w (cell_ptr (percpu w this)) (regs ctx ! 1) = None \<longrightarrow>
      psci_emulate_cpu_on this ctx w = (PSCI_DENIED, w)) \<and>
   (\<forall>t. arm_cpu_by_mpidr w (cell_ptr (percpu w this)) (regs ctx ! 1) = Some t \<longrightarrow>
      t \<in> set (cpus_of (cell_cpu_set (cells w (cell_ptr (percpu w this))))) \<and>
      cells (snd (psci_emulate_cpu_on this ctx w)) = cells w \<and>
      hw (snd (psci_emulate_cpu_on this ctx w)) = hw w \<and>
      (\<not> wait_for_poweron (percpu w t) \<longrightarrow>
         fst (psci_emulate_cpu_on this ctx w) = PSCI_ALREADY_ON \<and>
         percpu (snd (psci_emulate_cpu_on this ctx w)) = percpu w \<and>
         events (snd (psci_emulate_cpu_on this ctx w)) = events w @ [SpinLock t, SpinUnlock t]) \<and>
      (wait_for_poweron (percpu w t) \<longrightarrow>
         fst (psci_emulate_cpu_on this ctx w) = PSCI_SUCCESS \<and>
         percpu (snd (psci_emulate_cpu_on this ctx w)) =
           (percpu w)(t := (percpu w t)\<lparr>cpu_on_entry := regs ctx ! 2,
                                        cpu_on_context := regs ctx ! 3, reset := True\<rparr>) \<and>
         events (snd (psci_emulate_cpu_on this ctx w)) = events w @
           [SpinLock t, Store t (Set_cpu_on_entry (regs ctx ! 2)),
            Store t (Set_cpu_on_context (regs ctx ! 3)), Store t (Set_reset True),
            SpinUnlock t,
            SendSgi \<lparr>routing_mode = 0, aff1 = 0, aff2 = 0, aff3 = 0, targets = push_bit t 1,
                     sgi_ident = SGI_EVENT\<rparr>]))"
proof (intro conjI allI impI)
  assume "arm_cpu_by_mpidr w (cell_ptr (percpu w this)) (regs ctx ! 1) = None"
  then show "psci_emulate_cpu_on this ctx w = (PSCI_DENIED, w)"
    by (rule cpu_on_denied)
next
  fix t
  assume t: "arm_cpu_by_mpidr w (cell_ptr (percpu w this)) (regs ctx ! 1) = Some t"
  show "t \<in> set (cpus_of (cell_cpu_set (cells w (cell_ptr (percpu w this)))))"
    by (rule by_mpidr_Some(1)[OF t])
  show "cells (snd (psci_emulate_cpu_on this ctx w)) = cells w"
    and "hw (snd (psci_emulate_cpu_on this ctx w)) = hw w"
    using t by (simp_all add: psci_emulate_cpu_on_def Let_def)
  {
    assume "\<not> wait_for_poweron (percpu w t)"
    note cpu_on_already_on[OF t this]
    then show "fst (psci_emulate_cpu_on this ctx w) = PSCI_ALREADY_ON"
      and "percpu (snd (psci_emulate_cpu_on this ctx w)) = percpu w"
      and "events (snd (psci_emulate_cpu_on this ctx w)) = events w @ [SpinLock t, SpinUnlock t]"
      by simp_all
  }
  {
    assume "wait_for_poweron (percpu w t)"
    note cpu_on_success[OF t this]
    then show "fst (psci_emulate_cpu_on this ctx w) = PSCI_SUCCESS"
      and "percpu (snd (psci_emulate_cpu_on this ctx w)) =
           (percpu w)(t := (percpu w t)\<lparr>cpu_on_entry := regs ctx ! 2,
                                        cpu_on_context := regs ctx ! 3, reset := True\<rparr>)"
      and "events (snd (psci_emulate_cpu_on this ctx w)) = events w @
           [SpinLock t, Store t (Set_cpu_on_entry (regs ctx ! 2)),
            Store t (Set_cpu_on_context (regs ctx ! 3)), Store t (Set_reset True),
            SpinUnlock t,
            SendSgi \<lparr>routing_mode = 0, aff1 = 0, aff2 = 0, aff3 = 0, targets = push_bit t 1,
                     sgi_ident = SGI_EVENT\<rparr>]"
      by simp_all
  }
qed

theorem psci_emulate_cpu_on_spec_witness:
  "psci_emulate_cpu_on 3 (cpu_on_ctx\<lparr>regs := (regs cpu_on_ctx)[1 := 4]\<rparr>) example_world =
     (PSCI_DENIED, example_world) \<and>
   fst (psci_emulate_cpu_on 3 (cpu_on_ctx\<lparr>regs := (regs cpu_on_ctx)[1 := 0]\<rparr>) example_world) =
     PSCI_ALREADY_ON \<and>
   events (snd (psci_emulate_cpu_on 3 (cpu_on_ctx\<lparr>regs := (regs cpu_on_ctx)[1 := 0]\<rparr>)
     example_world)) = [SpinLock 3, SpinUnlock 3] \<and>
   fst (psci_emulate_cpu_on 3 cpu_on_ctx example_world) = PSCI_SUCCESS \<and>
   cpu_on_entry (percpu (snd (psci_emulate_cpu_on 3 cpu_on_ctx example_world)) 5) = 0x80001000 \<and>
   cpu_on_context (percpu (snd (psci_emulate_cpu_on 3 cpu_on_ctx example_world)) 5) = 0xCAFE \<and>
   reset (percpu (snd (psci_emulate_cpu_on 3 cpu_on_ctx example_world)) 5) \<and>
   events (snd (psci_emulate_cpu_on 3 cpu_on_ctx example_world)) =
     [SpinLock 5, Store 5 (Set_cpu_on_entry 0x80001000), Store 5 (Set_cpu_on_context 0xCAFE),
      Store 5 (Set_reset True), SpinUnlock 5,
      SendSgi \<lparr>routing_mode = 0, aff1 = 0, aff2 = 0, aff3 = 0, targets = 0x20,
               sgi_ident = SGI_EVENT\<rparr>]"
proof -
  have w: "wait_for_poweron (percpu example_world 5)" "\<not> wait_for_poweron (percpu example_world 3)"
    "events example_world = []"
    by (simp_all add: example_world_def example_percpu_def)
  have r: "regs cpu_on_ctx ! 2 = 0x80001000" "regs cpu_on_ctx ! 3 = 0xCAFE"
    by (simp_all add: cpu_on_ctx_def)
  show ?thesis
    using psci_emulate_cpu_on_spec[of example_world 3 cpu_on_ctx]
      psci_emulate_cpu_on_spec[of example_world 3 "cpu_on_ctx\<lparr>regs := (regs cpu_on_ctx)[1 := 0]\<rparr>"]
      psci_emulate_cpu_on_spec[of example_world 3 "cpu_on_ctx\<lparr>regs := (regs cpu_on_ctx)[1 := 4]\<rparr>"]
    unfolding example_mpidr
    by (simp add: w r)
qed

text \<open>
  C10: every call of \<open>psci_dispatch\<close> adds one (modulo \<open>2^32\<close>) to the calling CPU's
  \<open>VMEXITS_PSCI\<close> counter, whatever the function id and the result: no other counter of
  any CPU changes, the call stores to a counter exactly once, and a call with an
  unrecognised function id returns NOT_SUPPORTED (and is counted like the others).
\<close>

theorem psci_dispatch_counts_every_call:
  "stats (percpu (snd (psci_dispatch this ctx w)) this) VMEXITS_PSCI =
     stats (percpu w this) VMEXITS_PSCI + 1 \<and>
   (\<forall>c s. (c, s) \<noteq> (this, VMEXITS_PSCI) \<longrightarrow>
      stats (percpu (snd (psci_dispatch this ctx w)) c) s = stats (percpu w c) s) \<and>
   filter is_stat_store (events (snd (psci_dispatch this ctx w))) =
     filter is_stat_store (events w) @
       [Store this (Set_stat VMEXITS_PSCI (stats (percpu w this) VMEXITS_PSCI + 1))] \<and>
   (regs ctx ! 0 \<notin> {PSCI_VERSION, PSCI_CPU_OFF, PSCI_CPU_OFF_V0_1_UBOOT, PSCI_CPU_ON_32,
        PSCI_CPU_ON_V0_1_UBOOT, PSCI_AFFINITY_INFO_32} \<longrightarrow>
      fst (psci_dispatch this ctx w) = PSCI_NOT_SUPPORTED)"
  using psci_dispatch_unknown[of ctx this w]
  by (simp add: psci_dispatch_stat psci_dispatch_stat_events)

theorem psci_dispatch_counts_every_call_witness:
  "fst (psci_dispatch 3 unknown_psci_ctx example_world) = PSCI_NOT_SUPPORTED \<and>
   stats (percpu (snd (psci_dispatch 3 unknown_psci_ctx example_world)) 3) VMEXITS_PSCI = 1 \<and>
   stats (percpu (snd (psci_dispatch 3 unknown_psci_ctx example_world)) 3) VMEXITS_TOTAL = 0 \<and>
   stats (percpu (snd (psci_dispatch 3 cpu_on_ctx example_world)) 3) VMEXITS_PSCI = 1 \<and>
   stats (percpu (snd (psci_dispatch 3 cpu_on_ctx example_world)) 5) VMEXITS_PSCI = 0"
proof -
  have s: "stats (percpu example_world c) s = 0" for c s
    by (simp add: example_world_def example_percpu_def)
  have u: "regs unknown_psci_ctx ! 0 \<notin> {PSCI_VERSION, PSCI_CPU_OFF, PSCI_CPU_OFF_V0_1_UBOOT,
      PSCI_CPU_ON_32, PSCI_CPU_ON_V0_1_UBOOT, PSCI_AFFINITY_INFO_32}"
    by (simp add: unknown_psci_ctx_def PSCI_VERSION_def PSCI_CPU_OFF_def
        PSCI_CPU_OFF_V0_1_UBOOT_def PSCI_CPU_ON_32_def PSCI_CPU_ON_V0_1_UBOOT_def
        PSCI_AFFINITY_INFO_32_def)
  show ?thesis
    using psci_dispatch_counts_every_call[of 3 unknown_psci_ctx example_world]
      psci_dispatch_counts_every_call[of 3 cpu_on_ctx example_world] u
    by (simp add: s)
qed

text \<open>
  C8: \<open>arch_cell_create\<close> on a cell whose CPU ids fit an \<open>unsigned int\<close>. When paging
  initialisation fails, its error is returned at once. Otherwise the virtual ids of the
  cell's \<open>N\<close> CPUs, in ascending physical order, are \<open>0, 1, ..., N - 1\<close>; \<open>last_virt_id\<close>
  is \<open>N - 1\<close>; \<open>cpu_on_entry\<close> is 0 for the CPU with virtual id 0 and
  \<open>PSCI_INVALID_ADDRESS\<close> for the others; the CPUs outside the cell are untouched; the
  result is what the irqchip initialisation returned, and when that is an error the last
  thing done is the destruction of the cell's paging (else, the SMP initialisation).
\<close>

theorem arch_cell_create_virt_ids:
  "max_cpu_id (cell_cpu_set (cells w c)) < 2 ^ 32 \<Longrightarrow>
   (paging_err \<noteq> 0 \<longrightarrow>
      arch_cell_create c paging_err irqchip_err w = (paging_err, emit (PagingCellInit c) w)) \<and>
   (paging_err = 0 \<longrightarrow>
      fst (arch_cell_create c paging_err irqchip_err w) = irqchip_err \<and>
      map (\<lambda>p. unat (virt_id (percpu (snd (arch_cell_create c paging_err irqchip_err w)) p)))
          (cpus_of (cell_cpu_set (cells w c))) =
        [0..<length (cpus_of (cell_cpu_set (cells w c)))] \<and>
      last_virt_id (cells (snd (arch_cell_create c paging_err irqchip_err w)) c) =
        of_nat (length (cpus_of (cell_cpu_set (cells w c)))) - 1 \<and>
      (\<forall>p\<in>set (cpus_of (cell_cpu_set (cells w c))).
         cpu_on_entry (percpu (snd (arch_cell_create c paging_err irqchip_err w)) p) =
           (if virt_id (percpu (snd (arch_cell_create c paging_err irqchip_err w)) p) = 0
            then 0 else PSCI_INVALID_ADDRESS)) \<and>
      (\<forall>p. p \<notin> set (cpus_of (cell_cpu_set (cells w c))) \<longrightarrow>
         percpu (snd (arch_cell_create c paging_err irqchip_err w)) p = percpu w p) \<and>
      (\<exists>pre. events (snd (arch_cell_create c paging_err irqchip_err w)) =
         pre @ [IrqchipCellInit c,
                if irqchip_err \<noteq> 0 then PagingCellDestroy c else SmpCellInit c]))"
proof (intro conjI impI)
  assume "paging_err \<noteq> 0"
  then show "arch_cell_create c paging_err irqchip_err w = (paging_err, emit (PagingCellInit c) w)"
    by (rule arch_cell_create_paging_failure)
next
  assume bound: "max_cpu_id (cell_cpu_set (cells w c)) < 2 ^ 32" and ok: "paging_err = 0"
  let ?cpus = "cpus_of (cell_cpu_set (cells w c))"
  let ?w' = "snd (arch_cell_create c paging_err irqchip_err w)"
  note pc = arch_cell_create_percpu[OF ok]
  have len: "length ?cpus \<le> 2 ^ 32"
    using length_cpus_of[of "cell_cpu_set (cells w c)"] bound by simp
  show "fst (arch_cell_create c paging_err irqchip_err w) = irqchip_err"
    by (rule pc(3))
  show "map (\<lambda>p. unat (virt_id (percpu ?w' p))) ?cpus = [0..<length ?cpus]"
  proof (rule nth_equalityI)
    show "length (map (\<lambda>p. unat (virt_id (percpu ?w' p))) ?cpus) = length [0..<length ?cpus]"
      by simp
  next
    fix i
    assume "i < length (map (\<lambda>p. unat (virt_id (percpu ?w' p))) ?cpus)"
    then have i: "i < length ?cpus" by simp
    with len have "i < 2 ^ 32" by simp
    then show "map (\<lambda>p. unat (virt_id (percpu ?w' p))) ?cpus ! i = [0..<length ?cpus] ! i"
      using i by (simp add: pc(1) assign_virt_ids_nth(1)[OF distinct_cpus_of i] unat_of_nat_u32)
  qed
  show "last_virt_id (cells ?w' c) = of_nat (length ?cpus) - 1"
    by (rule pc(2))
  show "\<forall>p\<in>set ?cpus. cpu_on_entry (percpu ?w' p) =
      (if virt_id (percpu ?w' p) = 0 then 0 else PSCI_INVALID_ADDRESS)"
  proof
    fix p
    assume "p \<in> set ?cpus"
    then obtain i where i: "i < length ?cpus" and p: "p = ?cpus ! i"
      by (auto simp add: in_set_conv_nth)
    show "cpu_on_entry (percpu ?w' p) =
      (if virt_id (percpu ?w' p) = 0 then 0 else PSCI_INVALID_ADDRESS)"
      unfolding p pc(1)
      by (simp add: assign_virt_ids_nth[OF distinct_cpus_of i])
  qed
  show "\<forall>p. p \<notin> set ?cpus \<longrightarrow> percpu ?w' p = percpu w p"
    by (simp add: pc(1) assign_virt_ids_frame)
  show "\<exists>pre. events ?w' =
      pre @ [IrqchipCellInit c, if irqchip_err \<noteq> 0 then PagingCellDestroy c else SmpCellInit c]"
    using pc(4,5) by (cases "irqchip_err = 0") simp_all
qed

theorem arch_cell_create_virt_ids_witness:
  "max_cpu_id (cell_cpu_set (cells root_world 1)) < 2 ^ 32 \<and>
   fst (arch_cell_create 1 0 0 root_world) = 0 \<and>
   unat (virt_id (percpu root_world 3)) = 3 \<and>
   unat (virt_id (percpu (snd (arch_cell_create 1 0 0 root_world)) 3)) = 0 \<and>
   unat (virt_id (percpu (snd (arch_cell_create 1 0 0 root_world)) 5)) = 1 \<and>
   cpu_on_entry (percpu (snd (arch_cell_create 1 0 0 root_world)) 3) = 0 \<and>
   cpu_on_entry (percpu (snd (arch_cell_create 1 0 0 root_world)) 5) = PSCI_INVALID_ADDRESS \<and>
   last_virt_id (cells (snd (arch_cell_create 1 0 0 root_world)) 1) = 1 \<and>
   percpu (snd (arch_cell_create 1 0 0 root_world)) 4 = percpu root_world 4 \<and>
   fst (arch_cell_create 1 0 (- 12) root_world) = - 12 \<and>
   last (events (snd (arch_cell_create 1 0 (- 12) root_world))) = PagingCellDestroy 1"
proof -
  have b: "max_cpu_id (cell_cpu_set (cells root_world 1)) < 2 ^ 32"
    "unat (virt_id (percpu root_world 3)) = 3"
    by (simp_all add: root_world_def example_world_def example_cells_def root_percpu_def)
  have nz: "virt_id (percpu (snd (arch_cell_create 1 0 0 root_world)) 5) \<noteq> 0"
    if "unat (virt_id (percpu (snd (arch_cell_create 1 0 0 root_world)) 5)) = 1"
    using that by auto
  show ?thesis
    using arch_cell_create_virt_ids[OF b(1), of 0 0] arch_cell_create_virt_ids[OF b(1), of 0 "- 12"] b nz
    unfolding root_cpus
    by (auto simp add: upt_rec unat_eq_0)
qed

section \<open>Facts about interrupt injection\<close>

lemma inject_scan_spec:
  "inject_scan g elsr irq ixs ff =
     (if \<exists>i\<in>set ixs. \<not> test_bit i elsr \<and> gic_read_lr g i AND GICH_LR_VIRT_ID_MASK = ucast irq
      then Inl (- EEXIST)
      else Inr (if ff \<noteq> - 1 then ff
                else (case find (\<lambda>i. test_bit i elsr) ixs of None \<Rightarrow> - 1 | Some i \<Rightarrow> int i)))"
  by (induction ixs arbitrary: ff) (auto simp add: Let_def)

lemma virt_id_mask: "lr AND GICH_LR_VIRT_ID_MASK = take_bit 10 lr"
  by (simp add: GICH_LR_VIRT_ID_MASK_def take_bit_eq_mask mask_eq_exp_minus_1)

lemma is_sgi_unat: "is_sgi irq \<longleftrightarrow> unat irq < 16"
proof -
  have "(ucast irq :: u32) < 16 \<longleftrightarrow> unat (ucast irq :: u32) < unat (16 :: u32)"
    by (rule word_less_nat_alt)
  also have "unat (ucast irq :: u32) = unat irq"
  proof -
    have "unat irq < 2 ^ 16"
      using unsigned_less[of irq] by simp
    then have "unat irq < 2 ^ 32"
      by simp
    then show ?thesis
      by (simp add: unsigned_ucast_eq take_bit_nat_eq_self)
  qed
  finally show ?thesis
    by (simp add: is_sgi_def)
qed

lemma entry_eq:
  "(let lr0 = ucast irq; lr1 = lr0 OR GICH_LR_PENDING_BIT;
        lr2 = (if \<not> is_sgi irq then
                 (lr1 OR GICH_LR_HW_BIT) OR push_bit GICH_LR_PHYS_ID_SHIFT (ucast irq)
               else lr1)
    in lr2) = injected_entry irq"
proof -
  have c: "GICH_LR_PENDING_BIT = push_bit 28 1" "GICH_LR_HW_BIT = push_bit 31 1"
    by (simp_all add: GICH_LR_PENDING_BIT_def GICH_LR_HW_BIT_def)
  show ?thesis
    unfolding Let_def is_sgi_unat injected_entry_def c GICH_LR_PHYS_ID_SHIFT_def
    by (cases "unat irq < 16") (simp_all only: if_True if_False not_True_eq_False not_False_eq_True or.assoc)
qed

lemma gic_inject_irq_eq:
  "gic_inject_irq n irq g =
     (if \<exists>i<n. lr_holds g i irq then (- EEXIST, g)
      else (case find (lr_empty g) [0..<n] of
              None \<Rightarrow> (- EBUSY, g)
            | Some i \<Rightarrow> (0, gic_write_lr i (injected_entry irq) g)))"
proof -
  let ?elsr = "[gich_elsr0 g, gich_elsr1 g]"
  have h: "(\<exists>i\<in>set [0..<n]. \<not> test_bit i ?elsr \<and>
        gic_read_lr g i AND GICH_LR_VIRT_ID_MASK = ucast irq) \<longleftrightarrow> (\<exists>i<n. lr_holds g i irq)"
    by (auto simp add: lr_holds_def lr_empty_def virt_id_mask gic_read_lr_def)
  have e: "(\<lambda>i. test_bit i ?elsr) = lr_empty g"
    by (simp add: lr_empty_def fun_eq_iff)
  have scan: "inject_scan g ?elsr irq [0..<n] (- 1) =
     (if \<exists>i<n. lr_holds g i irq then Inl (- EEXIST)
      else Inr (case find (lr_empty g) [0..<n] of None \<Rightarrow> - 1 | Some i \<Rightarrow> int i))"
    by (simp only: inject_scan_spec h e) simp
  show ?thesis
  proof (cases "\<exists>i<n. lr_holds g i irq")
    case True
    then show ?thesis
      by (simp add: gic_inject_irq_def scan)
  next
    case False
    show ?thesis
    proof (cases "find (lr_empty g) [0..<n]")
      case None
      with False show ?thesis
        by (auto simp add: gic_inject_irq_def scan)
    next
      case (Some i)
      with False show ?thesis
        using entry_eq[of irq]
        by (auto simp add: gic_inject_irq_def scan Let_def)
    qed
  qed
qed

lemma find_upt_None: "find P [0..<n] = None \<longleftrightarrow> (\<forall>i<n. \<not> P i)"
  by (auto simp add: find_None_iff)

lemma find_upt_Some:
  "find P [0..<n] = Some i \<longleftrightarrow> i < n \<and> P i \<and> (\<forall>j<i. \<not> P j)"
  by (auto simp add: find_Some_iff)

lemma bit_injected_entry:
  "bit (injected_entry a) n \<longleftrightarrow>
     n < 32 \<and> (bit a n \<or> n = 28 \<or> (\<not> unat a < 16 \<and> (n = 31 \<or> (10 \<le> n \<and> bit a (n - 10)))))"
  unfolding injected_entry_def
  by (cases "unat a < 16")
    (simp_all only: if_True if_False bit_or_iff bit_push_bit_iff bit_ucast_iff bit_1_iff
      possible_bit_word, auto dest: bit_imp_le_length)

lemma entry_pending: "bit (injected_entry a) 28"
  by (simp add: bit_injected_entry)

lemma entry_not_empty: "\<not> lr_is_empty (injected_entry a)"
proof
  assume "lr_is_empty (injected_entry a)"
  then have "injected_entry a AND (GICH_LR_PENDING_BIT OR GICH_LR_ACTIVE_BIT) = 0"
    by (simp add: lr_is_empty_def)
  then have "\<not> bit (injected_entry a AND (GICH_LR_PENDING_BIT OR GICH_LR_ACTIVE_BIT)) 28"
    by simp
  moreover have "bit (GICH_LR_PENDING_BIT OR GICH_LR_ACTIVE_BIT) 28"
    by (simp add: GICH_LR_PENDING_BIT_def GICH_LR_ACTIVE_BIT_def)
  ultimately show False
    using entry_pending[of a] by (simp add: bit_and_iff)
qed

lemma entry_virt_id: "take_bit 10 (injected_entry a) = take_bit 10 (ucast a)"
  by (rule bit_eqI) (auto simp add: bit_take_bit_iff bit_injected_entry bit_ucast_iff
      dest: bit_imp_le_length)

lemma lr_empty_0: "lr_empty g 0 \<longleftrightarrow> bit (gich_elsr0 g) 0"
  by (simp add: lr_empty_def test_bit_def)

lemma write_lr_0:
  "gich_lr (gic_write_lr 0 (injected_entry a) g) 0 = injected_entry a"
  "\<not> lr_empty (gic_write_lr 0 (injected_entry a) g) 0"
  by (simp_all add: gic_write_lr_def lr_empty_0 entry_not_empty bit_unset_bit_iff Let_def)

lemma small_id:
  assumes "unat a < 1024"
  shows "take_bit 10 (ucast a :: u32) = ucast (a::u16)"
proof -
  have "unat (take_bit 10 a) = unat a"
    using assms by (simp add: unsigned_take_bit_eq take_bit_nat_eq_self)
  then have "take_bit 10 a = a"
    by (simp add: word_unat_eq_iff)
  then have "ucast (take_bit 10 a) = (ucast a :: u32)"
    by simp
  then show ?thesis
    by (simp add: unsigned_take_bit_eq)
qed

lemma unat_ucast_u16: "unat (ucast (a::u16) :: u32) = unat a"
proof -
  have "unat a < 2 ^ 16"
    using unsigned_less[of a] by simp
  then have "unat a < 2 ^ 32"
    by simp
  then show ?thesis
    by (simp add: unsigned_ucast_eq take_bit_nat_eq_self)
qed

lemma ucast_u16_inj: "(ucast (a::u16) :: u32) = ucast b \<longleftrightarrow> a = b"
proof
  assume "(ucast a :: u32) = ucast b"
  then have "unat (ucast a :: u32) = unat (ucast b :: u32)"
    by simp
  then show "a = b"
    by (simp add: unat_ucast_u16 word_unat_eq_iff)
qed simp

lemma inject_one_lr:
  assumes "lr_empty g 0" and "unat a < 1024" and "unat b < 1024" and "a \<noteq> b"
  shows "gic_inject_irq 1 a g = (0, gic_write_lr 0 (injected_entry a) g)"
    and "fst (gic_inject_irq 1 b (snd (gic_inject_irq 1 a g))) = - EBUSY"
    and "fst (gic_inject_irq 1 a (snd (gic_inject_irq 1 a g))) = - EEXIST"
proof -
  let ?g1 = "gic_write_lr 0 (injected_entry a) g"
  show first: "gic_inject_irq 1 a g = (0, ?g1)"
    using assms(1) by (simp add: gic_inject_irq_eq lr_holds_def)
  have holds: "lr_holds ?g1 0 c \<longleftrightarrow> a = c" if "unat c < 1024" for c
    using that assms(2)
    by (auto simp add: lr_holds_def write_lr_0 entry_virt_id small_id ucast_u16_inj)
  show "fst (gic_inject_irq 1 b (snd (gic_inject_irq 1 a g))) = - EBUSY"
    unfolding first snd_conv
    using holds[OF assms(3)] assms(4) write_lr_0(2)[of a g]
    by (simp add: gic_inject_irq_eq)
  show "fst (gic_inject_irq 1 a (snd (gic_inject_irq 1 a g))) = - EEXIST"
    unfolding first snd_conv
    using holds[OF assms(2)]
    by (simp add: gic_inject_irq_eq)
qed

lemma write_lr_lr: "gich_lr (gic_write_lr i v g) = (gich_lr g)(i := v)"
  by (simp add: gic_write_lr_def Let_def)


lemma example_gich:
  "lr_empty empty_gich 0" "unat (42::u16) < 1024" "unat (43::u16) < 1024" "(42::u16) \<noteq> 43"
  by (simp_all add: lr_empty_0 empty_gich_def)


section \<open>Claims about interrupt injection\<close>

text \<open>
  C4: for every state of the list registers and every requested id, \<open>gic_inject_irq\<close>
  returns \<open>-EEXIST\<close> and writes nothing if some occupied list register among the first
  \<open>num_lr\<close> holds the id in its virtual-id field; else it returns \<open>-EBUSY\<close> and writes
  nothing if none of them is empty; else it returns 0 and writes, into the first empty
  one, the entry with the id, the pending bit and, exactly when the id is not an SGI, the
  hardware bit and a copy of the id as physical id. With one list register, empty at
  first, and two interrupt ids (a GIC interrupt id is below 1024: the list register has
  ten bits for it): a first injection succeeds, a second with a different id returns
  \<open>-EBUSY\<close>, a second with the same id returns \<open>-EEXIST\<close>.
\<close>

theorem gic_inject_irq_spec:
  "gic_inject_irq n irq g =
     (if \<exists>i<n. lr_holds g i irq then (- EEXIST, g)
      else (case find (lr_empty g) [0..<n] of
              None \<Rightarrow> (- EBUSY, g)
            | Some i \<Rightarrow> (0, gic_write_lr i (injected_entry irq) g))) \<and>
   (find (lr_empty g) [0..<n] = None \<longleftrightarrow> (\<forall>i<n. \<not> lr_empty g i)) \<and>
   (\<forall>i. find (lr_empty g) [0..<n] = Some i \<longleftrightarrow>
          i < n \<and> lr_empty g i \<and> (\<forall>j<i. \<not> lr_empty g j)) \<and>
   (\<forall>i v. gich_lr (gic_write_lr i v g) = (gich_lr g)(i := v)) \<and>
   (lr_empty g 0 \<and> unat a < 1024 \<and> unat b < 1024 \<and> a \<noteq> b \<longrightarrow>
      gic_inject_irq 1 a g = (0, gic_write_lr 0 (injected_entry a) g) \<and>
      fst (gic_inject_irq 1 b (snd (gic_inject_irq 1 a g))) = - EBUSY \<and>
      fst (gic_inject_irq 1 a (snd (gic_inject_irq 1 a g))) = - EEXIST)"
  using inject_one_lr[of g a b]
  by (simp add: gic_inject_irq_eq[of n irq g] find_upt_None find_upt_Some write_lr_lr)

theorem gic_inject_irq_spec_witness:
  "fst (gic_inject_irq 1 42 empty_gich) = 0 \<and>
   gich_lr (snd (gic_inject_irq 1 42 empty_gich)) 0 = 0x9000A82A \<and>
   fst (gic_inject_irq 1 43 (snd (gic_inject_irq 1 42 empty_gich))) = - EBUSY \<and>
   fst (gic_inject_irq 1 42 (snd (gic_inject_irq 1 42 empty_gich))) = - EEXIST"
proof -
  note t = gic_inject_irq_spec[of 1 42 empty_gich 42 43]
  from t example_gich
  have 1: "gic_inject_irq 1 42 empty_gich = (0, gic_write_lr 0 (injected_entry 42) empty_gich)"
    and 2: "fst (gic_inject_irq 1 43 (snd (gic_inject_irq 1 42 empty_gich))) = - EBUSY"
    and 3: "fst (gic_inject_irq 1 42 (snd (gic_inject_irq 1 42 empty_gich))) = - EEXIST"
    by blast+
  have e: "injected_entry 42 = 0x9000A82A"
    by (simp add: injected_entry_def)
  from 1 2 3 show ?thesis
    by (simp add: write_lr_lr e)
qed

section \<open>Suspending a CPU twice\<close>























end
